theory Spec2Isabelle
  imports Complex_Main "HOL-Library.Word"
begin

section \<open>JavaScript strings and numbers\<close>

text \<open>
  A JavaScript string is a sequence of UTF-16 code units; \<open>s.length\<close> counts code
  units. A string is modelled as a list of 16-bit words, \<open>length\<close> is \<open>s.length\<close> and
  \<open>@\<close> is concatenation (template literals, \<open>+\<close>). An \<open>Error\<close> object is modelled by
  its \<open>message\<close>.
\<close>

type_synonym jsstring = "16 word list"
type_synonym jserror = jsstring

text \<open>The string literal of the source with the characters of an ASCII literal.\<close>

definition js :: "string \<Rightarrow> jsstring" where
  "js s = map (\<lambda>c. word_of_nat (of_char c)) s"

text \<open>
  \<open>String.prototype.trim\<close> removes leading and trailing WhiteSpace and LineTerminator
  code points (ECMAScript, 22.1.3.32 with tables 35 and 36): TAB, LF, VT, FF, CR, SP,
  NBSP, U+1680, U+2000 to U+200A, U+2028, U+2029, U+202F, U+205F, U+3000 and U+FEFF.
  All of them are single code units.
\<close>

definition isWhiteSpace :: "16 word \<Rightarrow> bool" where
  "isWhiteSpace c \<longleftrightarrow>
     (0x0009 \<le> c \<and> c \<le> 0x000D) \<or> c = 0x0020 \<or> c = 0x00A0 \<or> c = 0x1680 \<or>
     (0x2000 \<le> c \<and> c \<le> 0x200A) \<or> c = 0x2028 \<or> c = 0x2029 \<or> c = 0x202F \<or>
     c = 0x205F \<or> c = 0x3000 \<or> c = 0xFEFF"

definition trim :: "jsstring \<Rightarrow> jsstring" where
  "trim s = rev (dropWhile isWhiteSpace (rev (dropWhile isWhiteSpace s)))"

text \<open>\<open>xs.join(sep)\<close> for an array of strings.\<close>

fun join :: "jsstring \<Rightarrow> jsstring list \<Rightarrow> jsstring" where
  "join sep [] = []"
| "join sep [x] = x"
| "join sep (x # y # ys) = x @ sep @ join sep (y # ys)"

text \<open>The decimal representation of a non-negative integer (\<open>`${n}`\<close>).\<close>

definition digit :: "nat \<Rightarrow> 16 word" where
  "digit d = word_of_nat (48 + d)"

fun toStringNat :: "nat \<Rightarrow> jsstring" where
  "toStringNat n = (if n < 10 then [digit n] else toStringNat (n div 10) @ [digit (n mod 10)])"

declare toStringNat.simps [simp del]

text \<open>
  \<open>(size / 1024 / 1024).toFixed(2)\<close> for a file size. Dividing a double by a power of
  two is exact, so the receiver is exactly \<open>size / 2^20\<close>; \<open>toFixed(2)\<close> then picks the
  integer \<open>n\<close> with \<open>n / 100\<close> nearest to it, the larger one on a tie (ECMAScript,
  21.1.3.3), and prints \<open>n\<close> with a point before its last two digits.
\<close>

definition toFixed2MB :: "nat \<Rightarrow> jsstring" where
  "toFixed2MB sz =
     (let n = (200 * sz + 1048576) div 2097152
      in toStringNat (n div 100) @ js ''.'' @ [digit (n mod 100 div 10), digit (n mod 10)])"

section \<open>Files and validation (fileHandler.js)\<close>

text \<open>
  A \<open>File\<close> of the browser: its name, declared MIME type and size, and what reading it
  gives. \<open>arrayBuffer\<close> is the outcome of the promise \<open>file.arrayBuffer()\<close> (the bytes,
  or the error it rejects with); \<open>readAsText\<close> is the outcome of
  \<open>FileReader.readAsText(file)\<close>: the decoded text delivered to \<open>onload\<close>, or \<open>None\<close>
  when \<open>onerror\<close> fires.
\<close>

type_synonym buffer = "8 word list"

record jsfile =
  file_name :: jsstring
  file_type :: jsstring
  file_size :: nat
  arrayBuffer :: "jserror + buffer"
  readAsText :: "jsstring option"

text \<open>The keys of the object literal \<open>SUPPORTED_FILE_TYPES\<close>, in source order.\<close>

definition SUPPORTED_FILE_TYPES :: "jsstring list" where
  "SUPPORTED_FILE_TYPES =
     [js ''application/pdf'',
      js ''text/plain'',
      js ''application/vnd.openxmlformats-officedocument.wordprocessingml.document'',
      js ''application/msword'',
      js ''image/png'',
      js ''image/jpeg'',
      js ''image/jpg'']"

text \<open>
  \<open>SUPPORTED_FILE_TYPES[file.type]\<close> is a property read on an ordinary object: a key
  that is not an own property is looked up in \<open>Object.prototype\<close>, whose properties
  are all truthy (functions, and the accessor \<open>__proto__\<close> giving the prototype).
\<close>

definition inheritedProps :: "jsstring list" where
  "inheritedProps =
     [js ''constructor'', js ''__proto__'', js ''hasOwnProperty'', js ''isPrototypeOf'',
      js ''propertyIsEnumerable'', js ''toLocaleString'', js ''toString'', js ''valueOf'',
      js ''__defineGetter__'', js ''__defineSetter__'', js ''__lookupGetter__'',
      js ''__lookupSetter__'']"

text \<open>Whether \<open>SUPPORTED_FILE_TYPES[t]\<close> is truthy.\<close>

definition lookupSupported :: "jsstring \<Rightarrow> bool" where
  "lookupSupported t \<longleftrightarrow> t \<in> set SUPPORTED_FILE_TYPES \<or> t \<in> set inheritedProps"

definition MAX_FILE_SIZE :: nat where
  "MAX_FILE_SIZE = 10 * 1024 * 1024"

definition MAX_FILES :: nat where
  "MAX_FILES = 5"

record validation =
  success :: bool
  message :: jsstring

definition validateFile :: "jsfile \<Rightarrow> validation" where
  "validateFile f =
     (if file_size f > MAX_FILE_SIZE then
        \<lparr>success = False,
         message = js ''File size exceeds 10MB limit. Current size: '' @
                   toFixed2MB (file_size f) @ js ''MB''\<rparr>
      else if \<not> lookupSupported (file_type f) then
        \<lparr>success = False,
         message = js ''Unsupported file type: '' @ file_type f @
                   js ''. Supported types: PDF, TXT, DOCX, DOC, PNG, JPG''\<rparr>
      else \<lparr>success = True, message = js ''File is valid''\<rparr>)"

record batch_validation =
  batch_success :: bool
  validFiles :: "jsfile list"
  errors :: "jsstring list"

text \<open>The \<open>for\<close> loop of \<open>validateMultipleFiles\<close>, with its two accumulators.\<close>

fun validateLoop :: "jsfile list \<Rightarrow> jsfile list \<Rightarrow> jsstring list \<Rightarrow> jsfile list \<times> jsstring list" where
  "validateLoop [] valid errs = (valid, errs)"
| "validateLoop (f # fs) valid errs =
     (let v = validateFile f
      in if success v then validateLoop fs (valid @ [f]) errs
         else validateLoop fs valid (errs @ [file_name f @ js '': '' @ message v]))"

definition validateMultipleFiles :: "jsfile list \<Rightarrow> batch_validation" where
  "validateMultipleFiles files =
     (if length files > MAX_FILES then
        \<lparr>batch_success = False, validFiles = [],
         errors = [js ''Maximum '' @ toStringNat MAX_FILES @ js '' files allowed. You selected '' @
                   toStringNat (length files) @ js '' files.'']\<rparr>
      else
        (let (valid, errs) = validateLoop files [] []
         in \<lparr>batch_success = (length errs = 0), validFiles = valid, errors = errs\<rparr>))"

section \<open>The PDF backend and the text extractors (fileHandler.js)\<close>

text \<open>
  The module keeps one variable, \<open>pdfjsLibPromise\<close>, at first \<open>null\<close> and then the
  promise made by the first call of \<open>loadPdfJs\<close>. The promise resolves with
  \<open>window.pdfjsLib\<close> when the injected script loads and rejects when it fails to.
  The state also carries a trace: the calls made to the browser and to the three
  libraries, in order, and one marker for each entry into \<open>processScannedPDF\<close>.
  The calls of \<open>onProgress\<close> are not in the model: they report percentages to
  the caller (some of them computed in floating point), a callback is taken not to
  throw, and nothing that is extracted or returned depends on them. Every promise
  of the outside is taken to settle.
\<close>

datatype promise = Resolved | Rejected jserror

datatype event =
    InjectScript
  | GetDocument buffer
  | GetPage nat
  | RenderPage nat
  | Recognize buffer
  | ExtractRawText buffer
  | ProcessScannedPDF

record world =
  pdfjsLibPromise :: "promise option"
  trace :: "event list"

definition emit :: "event \<Rightarrow> world \<Rightarrow> world" where
  "emit e w = w\<lparr>trace := trace w @ [e]\<rparr>"

text \<open>
  What the outside answers. A page gives its text items (\<open>item.str\<close> of
  \<open>getTextContent().items\<close>) and the bytes of its rendering (\<open>page.render\<close> on a
  canvas, \<open>toDataURL\<close>, \<open>fetch\<close> and \<open>arrayBuffer\<close>, which fail together into
  the same \<open>catch\<close>); a document gives its page count and its pages;
  \<open>extractRawText\<close> is mammoth's \<open>result.value\<close> and \<open>recognize\<close> is Tesseract's
  \<open>result.data.text\<close>.
\<close>

record page =
  getTextContent :: "jserror + jsstring list"
  render :: "jserror + buffer"

record pdf =
  numPages :: nat
  getPage :: "nat \<Rightarrow> jserror + page"

record env =
  scriptLoads :: bool
  getDocument :: "buffer \<Rightarrow> jserror + pdf"
  extractRawText :: "buffer \<Rightarrow> jserror + jsstring"
  recognize :: "buffer \<Rightarrow> jserror + jsstring"

definition loadPdfJs :: "env \<Rightarrow> world \<Rightarrow> promise \<times> world" where
  "loadPdfJs en w =
     (case pdfjsLibPromise w of
        None \<Rightarrow>
          (let p = (if scriptLoads en then Resolved
                    else Rejected (js ''Failed to load PDF.js library from CDN.''))
           in (p, emit InjectScript (w\<lparr>pdfjsLibPromise := Some p\<rparr>)))
      | Some p \<Rightarrow> (p, w))"

text \<open>\<open>textContent.items.map(item => item.str).join(' ')\<close>\<close>

definition joinItems :: "jsstring list \<Rightarrow> jsstring" where
  "joinItems items = join (js '' '') items"

text \<open>The loop of \<open>isScannedPDF\<close> over the pages \<open>i\<close> to \<open>maxPagesToCheck\<close>.\<close>

function scanLoop :: "pdf \<Rightarrow> nat \<Rightarrow> nat \<Rightarrow> nat \<Rightarrow> world \<Rightarrow> (jserror + nat) \<times> world" where
  "scanLoop d maxPagesToCheck i totalTextLength w =
     (if i \<le> maxPagesToCheck then
        (let w1 = emit (GetPage i) w
         in case getPage d i of
              Inl e \<Rightarrow> (Inl e, w1)
            | Inr pg \<Rightarrow>
                (case getTextContent pg of
                   Inl e \<Rightarrow> (Inl e, w1)
                 | Inr items \<Rightarrow>
                     scanLoop d maxPagesToCheck (i + 1)
                       (totalTextLength + length (joinItems items)) w1))
      else (Inr totalTextLength, w))"
  by pat_completeness auto
termination
  by (relation "measure (\<lambda>(d, m, i, t, w). Suc m - i)") auto

declare scanLoop.simps [simp del]

text \<open>The \<open>try\<close> block of \<open>isScannedPDF\<close>.\<close>

definition isScannedPDF_try :: "env \<Rightarrow> buffer \<Rightarrow> world \<Rightarrow> (jserror + bool) \<times> world" where
  "isScannedPDF_try en pdfBuffer w =
     (case loadPdfJs en w of
        (Rejected e, w1) \<Rightarrow> (Inl e, w1)
      | (Resolved, w1) \<Rightarrow>
          (let w2 = emit (GetDocument pdfBuffer) w1
           in case getDocument en pdfBuffer of
                Inl e \<Rightarrow> (Inl e, w2)
              | Inr d \<Rightarrow>
                  (case scanLoop d (min (numPages d) 3) 1 0 w2 of
                     (Inl e, w3) \<Rightarrow> (Inl e, w3)
                   | (Inr totalTextLength, w3) \<Rightarrow> (Inr (totalTextLength < 50), w3))))"

definition isScannedPDF :: "env \<Rightarrow> buffer \<Rightarrow> world \<Rightarrow> bool \<times> world" where
  "isScannedPDF en pdfBuffer w =
     (case isScannedPDF_try en pdfBuffer w of
        (Inr b, w') \<Rightarrow> (b, w')
      | (Inl e, w') \<Rightarrow> (False, w'))"

text \<open>The loop of \<open>extractTextFromPDF\<close> over the pages \<open>i\<close> to \<open>pdf.numPages\<close>.\<close>

function textLoop :: "pdf \<Rightarrow> nat \<Rightarrow> jsstring \<Rightarrow> world \<Rightarrow> (jserror + jsstring) \<times> world" where
  "textLoop d i fullText w =
     (if i \<le> numPages d then
        (let w1 = emit (GetPage i) w
         in case getPage d i of
              Inl e \<Rightarrow> (Inl e, w1)
            | Inr pg \<Rightarrow>
                (case getTextContent pg of
                   Inl e \<Rightarrow> (Inl e, w1)
                 | Inr items \<Rightarrow>
                     textLoop d (i + 1) (fullText @ joinItems items @ js [CHR 0x0A]) w1))
      else (Inr fullText, w))"
  by pat_completeness auto
termination
  by (relation "measure (\<lambda>(d, i, t, w). Suc (numPages d) - i)") auto

declare textLoop.simps [simp del]

definition extractTextFromPDF_try :: "env \<Rightarrow> buffer \<Rightarrow> world \<Rightarrow> (jserror + jsstring) \<times> world" where
  "extractTextFromPDF_try en pdfBuffer w =
     (case loadPdfJs en w of
        (Rejected e, w1) \<Rightarrow> (Inl e, w1)
      | (Resolved, w1) \<Rightarrow>
          (let w2 = emit (GetDocument pdfBuffer) w1
           in case getDocument en pdfBuffer of
                Inl e \<Rightarrow> (Inl e, w2)
              | Inr d \<Rightarrow>
                  (case textLoop d 1 [] w2 of
                     (Inl e, w3) \<Rightarrow> (Inl e, w3)
                   | (Inr fullText, w3) \<Rightarrow> (Inr (trim fullText), w3))))"

definition extractTextFromPDF :: "env \<Rightarrow> buffer \<Rightarrow> world \<Rightarrow> (jserror + jsstring) \<times> world" where
  "extractTextFromPDF en pdfBuffer w =
     (case extractTextFromPDF_try en pdfBuffer w of
        (Inl e, w') \<Rightarrow> (Inl (js ''Failed to extract text from PDF: '' @ e), w')
      | (Inr t, w') \<Rightarrow> (Inr t, w'))"

definition extractTextFromDocx :: "env \<Rightarrow> buffer \<Rightarrow> world \<Rightarrow> (jserror + jsstring) \<times> world" where
  "extractTextFromDocx en docBuffer w =
     (let w1 = emit (ExtractRawText docBuffer) w
      in case extractRawText en docBuffer of
           Inl e \<Rightarrow> (Inl (js ''Failed to extract text from Word document: '' @ e), w1)
         | Inr v \<Rightarrow> (Inr (trim v), w1))"

definition extractTextFromImage ::
  "env \<Rightarrow> buffer \<Rightarrow> jsstring \<Rightarrow> world \<Rightarrow> (jserror + jsstring) \<times> world" where
  "extractTextFromImage en imageBuffer fileName w =
     (let w1 = emit (Recognize imageBuffer) w
      in case recognize en imageBuffer of
           Inl e \<Rightarrow> (Inl (js ''Failed to extract text from image: '' @ e), w1)
         | Inr t \<Rightarrow> (Inr (trim t), w1))"

text \<open>The loop of \<open>processScannedPDF\<close> over the pages \<open>i\<close> to \<open>totalPages\<close>.\<close>

function ocrLoop ::
  "env \<Rightarrow> pdf \<Rightarrow> jsstring \<Rightarrow> nat \<Rightarrow> jsstring \<Rightarrow> world \<Rightarrow> (jserror + jsstring) \<times> world" where
  "ocrLoop en d fileName i fullText w =
     (if i \<le> numPages d then
        (let w1 = emit (GetPage i) w
         in case getPage d i of
              Inl e \<Rightarrow> (Inl e, w1)
            | Inr pg \<Rightarrow>
                (let w2 = emit (RenderPage i) w1
                 in case render pg of
                      Inl e \<Rightarrow> (Inl e, w2)
                    | Inr imageBuffer \<Rightarrow>
                        (case extractTextFromImage en imageBuffer
                                (fileName @ js '' - Page '' @ toStringNat i) w2 of
                           (Inl e, w3) \<Rightarrow> (Inl e, w3)
                         | (Inr pageText, w3) \<Rightarrow>
                             ocrLoop en d fileName (i + 1)
                               (fullText @ pageText @ js [CHR 0x0A, CHR 0x0A]) w3)))
      else (Inr fullText, w))"
  by pat_completeness auto
termination
  by (relation "measure (\<lambda>(en, d, n, i, t, w). Suc (numPages d) - i)") auto

declare ocrLoop.simps [simp del]

definition processScannedPDF_try ::
  "env \<Rightarrow> buffer \<Rightarrow> jsstring \<Rightarrow> world \<Rightarrow> (jserror + jsstring) \<times> world" where
  "processScannedPDF_try en pdfBuffer fileName w =
     (case loadPdfJs en w of
        (Rejected e, w1) \<Rightarrow> (Inl e, w1)
      | (Resolved, w1) \<Rightarrow>
          (let w2 = emit (GetDocument pdfBuffer) w1
           in case getDocument en pdfBuffer of
                Inl e \<Rightarrow> (Inl e, w2)
              | Inr d \<Rightarrow>
                  (case ocrLoop en d fileName 1 [] w2 of
                     (Inl e, w3) \<Rightarrow> (Inl e, w3)
                   | (Inr fullText, w3) \<Rightarrow> (Inr (trim fullText), w3))))"

definition processScannedPDF ::
  "env \<Rightarrow> buffer \<Rightarrow> jsstring \<Rightarrow> world \<Rightarrow> (jserror + jsstring) \<times> world" where
  "processScannedPDF en pdfBuffer fileName w =
     (case processScannedPDF_try en pdfBuffer fileName (emit ProcessScannedPDF w) of
        (Inl e, w') \<Rightarrow> (Inl (js ''Failed to process scanned PDF: '' @ e), w')
      | (Inr t, w') \<Rightarrow> (Inr t, w'))"

section \<open>One file and a batch of files (fileHandler.js)\<close>

text \<open>
  The object that \<open>extractTextFromFile\<close> returns: \<open>{ success: true, text, method,
  fileName, fileSize, fileType }\<close> or \<open>{ success: false, error, fileName, fileSize,
  fileType }\<close>.
\<close>

datatype extraction_result =
    Success (res_text: jsstring) (res_method: jsstring)
            (res_fileName: jsstring) (res_fileSize: nat) (res_fileType: jsstring)
  | Failure (res_error: jsstring)
            (res_fileName: jsstring) (res_fileSize: nat) (res_fileType: jsstring)

text \<open>
  The \<open>switch (file.type)\<close> of \<open>extractTextFromFile\<close>: the values of
  \<open>extractedText\<close> and \<open>processingMethod\<close> after it, or the error thrown in it.
\<close>

definition extractSwitch ::
  "env \<Rightarrow> jsfile \<Rightarrow> buffer \<Rightarrow> world \<Rightarrow> (jserror + jsstring \<times> jsstring) \<times> world" where
  "extractSwitch en f fileBuffer w =
     (if file_type f = js ''text/plain'' then
        (case readAsText f of
           None \<Rightarrow> (Inl (js ''Failed to read text file''), w)
         | Some r \<Rightarrow> (Inr (r, js ''Direct text reading''), w))
      else if file_type f = js ''application/pdf'' then
        (case extractTextFromPDF en fileBuffer w of
           (Inl e, w1) \<Rightarrow> (Inl e, w1)
         | (Inr extractedText, w1) \<Rightarrow>
             (if length extractedText < 50 then
                (case processScannedPDF en fileBuffer (file_name f) w1 of
                   (Inl e, w2) \<Rightarrow> (Inl e, w2)
                 | (Inr t, w2) \<Rightarrow> (Inr (t, js ''OCR (scanned PDF)''), w2))
              else (Inr (extractedText, js ''PDF text extraction''), w1)))
      else if file_type f =
                js ''application/vnd.openxmlformats-officedocument.wordprocessingml.document''
              \<or> file_type f = js ''application/msword'' then
        (case extractTextFromDocx en fileBuffer w of
           (Inl e, w1) \<Rightarrow> (Inl e, w1)
         | (Inr t, w1) \<Rightarrow> (Inr (t, js ''Word document extraction''), w1))
      else if file_type f = js ''image/png'' \<or> file_type f = js ''image/jpeg''
              \<or> file_type f = js ''image/jpg'' then
        (case extractTextFromImage en fileBuffer (file_name f) w of
           (Inl e, w1) \<Rightarrow> (Inl e, w1)
         | (Inr t, w1) \<Rightarrow> (Inr (t, js ''OCR (image)''), w1))
      else (Inl (js ''Unsupported file type: '' @ file_type f), w))"

text \<open>
  \<open>extractTextFromFile\<close>: \<open>Inl\<close> is an error thrown to the caller (the promise
  rejects), \<open>Inr\<close> the object returned. The validation and \<open>file.arrayBuffer()\<close>
  stand before the \<open>try\<close>; the \<open>switch\<close> and the test for empty text are inside it.
\<close>

definition extractTextFromFile ::
  "env \<Rightarrow> jsfile \<Rightarrow> world \<Rightarrow> (jserror + extraction_result) \<times> world" where
  "extractTextFromFile en f w =
     (let validation = validateFile f
      in if \<not> success validation then (Inl (message validation), w)
         else
           (case arrayBuffer f of
              Inl e \<Rightarrow> (Inl e, w)
            | Inr fileBuffer \<Rightarrow>
                (case extractSwitch en f fileBuffer w of
                   (Inl e, w') \<Rightarrow>
                     (Inr (Failure e (file_name f) (file_size f) (file_type f)), w')
                 | (Inr (extractedText, processingMethod), w') \<Rightarrow>
                     (if extractedText = [] \<or> length (trim extractedText) = 0 then
                        (Inr (Failure (js ''No text content found in the file'')
                                (file_name f) (file_size f) (file_type f)), w')
                      else
                        (Inr (Success extractedText processingMethod
                                (file_name f) (file_size f) (file_type f)), w')))))"

text \<open>The loop of \<open>processMultipleFiles\<close> over \<open>validation.validFiles\<close>.\<close>

fun processLoop ::
  "env \<Rightarrow> jsfile list \<Rightarrow> extraction_result list \<Rightarrow> world
     \<Rightarrow> (jserror + extraction_result list) \<times> world" where
  "processLoop en [] results w = (Inr results, w)"
| "processLoop en (f # fs) results w =
     (case extractTextFromFile en f w of
        (Inl e, w') \<Rightarrow> (Inl e, w')
      | (Inr result, w') \<Rightarrow> processLoop en fs (results @ [result]) w')"

definition processMultipleFiles ::
  "env \<Rightarrow> jsfile list \<Rightarrow> world \<Rightarrow> (jserror + extraction_result list) \<times> world" where
  "processMultipleFiles en files w =
     (let validation = validateMultipleFiles files
      in if \<not> batch_success validation then
           (Inl (js ''File validation failed: '' @ join (js '', '') (errors validation)), w)
         else processLoop en (validFiles validation) [] w)"

section \<open>The remote inference client (\<open>callGeminiAPI\<close> of the application component)\<close>

text \<open>
  A value read from a JSON response. An object is the list of its own properties
  (the keys distinct, as after parsing). Only the truthiness of a number matters here.
\<close>

datatype jsvalue =
    JUndefined
  | JNull
  | JBool bool
  | JNum rat
  | JStr jsstring
  | JArr "jsvalue list"
  | JObj "(jsstring \<times> jsvalue) list"

text \<open>
  \<open>v.name\<close> on a value that is neither \<open>null\<close> nor \<open>undefined\<close>, for the names
  read here (\<open>candidates\<close>, \<open>content\<close>, \<open>parts\<close>, \<open>text\<close>): no prototype has a
  property of these names, so only an object with such an own property gives a value.
\<close>

fun getMember :: "jsvalue \<Rightarrow> jsstring \<Rightarrow> jsvalue" where
  "getMember (JObj props) name = (case map_of props name of Some v \<Rightarrow> v | None \<Rightarrow> JUndefined)"
| "getMember v name = JUndefined"

text \<open>\<open>v[0]\<close> on a value that is neither \<open>null\<close> nor \<open>undefined\<close>.\<close>

fun getIndex0 :: "jsvalue \<Rightarrow> jsvalue" where
  "getIndex0 (JArr (x # xs)) = x"
| "getIndex0 (JStr (c # cs)) = JStr [c]"
| "getIndex0 (JObj props) = (case map_of props (js ''0'') of Some v \<Rightarrow> v | None \<Rightarrow> JUndefined)"
| "getIndex0 v = JUndefined"

text \<open>Optional chaining \<open>v?.\<close>: \<open>undefined\<close> when \<open>v\<close> is \<open>null\<close> or \<open>undefined\<close>.\<close>

definition optChain :: "jsvalue \<Rightarrow> (jsvalue \<Rightarrow> jsvalue) \<Rightarrow> jsvalue" where
  "optChain v get = (if v = JUndefined \<or> v = JNull then JUndefined else get v)"

text \<open>
  \<open>result.candidates?.[0]?.content?.parts?.[0]?.text\<close>. The first read is not
  optional: on \<open>null\<close> it throws a TypeError (with the message V8 gives it).
\<close>

definition textOf :: "jsvalue \<Rightarrow> jserror + jsvalue" where
  "textOf result =
     (if result = JUndefined \<or> result = JNull then
        Inl (js ''Cannot read properties of null (reading '' @ [0x27] @ js ''candidates'' @
             [0x27] @ js '')'')
      else
        (let candidates = getMember result (js ''candidates'');
             c0 = optChain candidates getIndex0;
             content = optChain c0 (\<lambda>v. getMember v (js ''content''));
             parts = optChain content (\<lambda>v. getMember v (js ''parts''));
             p0 = optChain parts getIndex0
         in Inr (optChain p0 (\<lambda>v. getMember v (js ''text'')))))"

text \<open>\<open>!v\<close>\<close>

fun isFalsy :: "jsvalue \<Rightarrow> bool" where
  "isFalsy JUndefined = True"
| "isFalsy JNull = True"
| "isFalsy (JBool b) = (\<not> b)"
| "isFalsy (JNum n) = (n = 0)"
| "isFalsy (JStr s) = (s = [])"
| "isFalsy v = False"

text \<open>
  What the outside answers to the client: the API key of the build environment
  (\<open>None\<close> when it is not set), the outcome of the \<open>k\<close>-th \<open>fetch\<close> of a call
  (from 0; it rejects, or resolves with a response whose \<open>json()\<close> rejects or
  resolves), and \<open>JSON.parse\<close> applied to the text.
\<close>

record response =
  ok :: bool
  status :: nat
  statusText :: jsstring
  json :: "jserror + jsvalue"

record 'p api_env =
  apiKey :: "jsstring option"
  fetch :: "'p \<Rightarrow> nat \<Rightarrow> jserror + response"
  JSON_parse :: "jsvalue \<Rightarrow> jserror + jsvalue"

text \<open>What the client does to the outside: a request, or a wait of so many milliseconds.\<close>

datatype api_event = Fetch | SetTimeout nat

text \<open>The \<open>try\<close> block of one iteration: the value returned, or the error thrown.\<close>

definition attemptOnce :: "'p api_env \<Rightarrow> 'p \<Rightarrow> nat \<Rightarrow> jserror + jsvalue" where
  "attemptOnce en payload k =
     (case fetch en payload k of
        Inl e \<Rightarrow> Inl e
      | Inr response \<Rightarrow>
          (if \<not> ok response then
             Inl (js ''API Error: '' @ toStringNat (status response) @ js '' '' @
                  statusText response)
           else
             (case json response of
                Inl e \<Rightarrow> Inl e
              | Inr result \<Rightarrow>
                  (case textOf result of
                     Inl e \<Rightarrow> Inl e
                   | Inr text \<Rightarrow>
                       (if isFalsy text then Inl (js ''Invalid response structure from API.'')
                        else JSON_parse en text)))))"

text \<open>
  The \<open>while\<close> loop. Every earlier iteration has failed, so \<open>attempt\<close> is also the
  number of requests made so far. Leaving the loop by its condition returns
  \<open>undefined\<close>.
\<close>

function retryLoop ::
  "'p api_env \<Rightarrow> 'p \<Rightarrow> nat \<Rightarrow> nat \<Rightarrow> nat \<Rightarrow> api_event list
     \<Rightarrow> (jserror + jsvalue) \<times> api_event list" where
  "retryLoop en payload maxRetries attempt delay calls =
     (if attempt < maxRetries then
        (case attemptOnce en payload attempt of
           Inr v \<Rightarrow> (Inr v, calls @ [Fetch])
         | Inl err \<Rightarrow>
             (if attempt + 1 \<ge> maxRetries then (Inl err, calls @ [Fetch])
              else retryLoop en payload maxRetries (attempt + 1) (delay * 2)
                     (calls @ [Fetch, SetTimeout delay])))
      else (Inr JUndefined, calls))"
  by pat_completeness auto
termination
  by (relation "measure (\<lambda>(en, p, m, a, d, l). m - a)") auto

declare retryLoop.simps [simp del]

definition callGeminiAPI ::
  "'p api_env \<Rightarrow> 'p \<Rightarrow> nat \<Rightarrow> (jserror + jsvalue) \<times> api_event list" where
  "callGeminiAPI en payload maxRetries =
     (if apiKey en = None \<or> apiKey en = Some [] then
        (Inl (js (''Gemini API key not configured. '' @
                  ''Please add VITE_GEMINI_API_KEY to your .env file.'')), [])
      else retryLoop en payload maxRetries 0 1000 [])"

section \<open>Notions used in the statements\<close>

text \<open>
  The text layer of page \<open>i\<close> of a document as \<open>isScannedPDF\<close> and
  \<open>extractTextFromPDF\<close> read it (the items of the page joined by spaces), \<open>None\<close>
  when the page or its text content cannot be had, and its length.
\<close>

definition textLayer :: "pdf \<Rightarrow> nat \<Rightarrow> jsstring option" where
  "textLayer d i =
     (case getPage d i of
        Inl e \<Rightarrow> None
      | Inr pg \<Rightarrow> (case getTextContent pg of Inl e \<Rightarrow> None | Inr items \<Rightarrow> Some (joinItems items)))"

definition layerLength :: "pdf \<Rightarrow> nat \<Rightarrow> nat" where
  "layerLength d i = (case textLayer d i of None \<Rightarrow> 0 | Some t \<Rightarrow> length t)"

text \<open>The requests for a page among the events.\<close>

fun isGetPage :: "event \<Rightarrow> bool" where
  "isGetPage (GetPage i) = True"
| "isGetPage e = False"

text \<open>
  How a call changes the state: it appends the events \<open>es\<close> to the trace, and when a
  promise is already cached it keeps that promise and injects no script.
\<close>

definition evolves :: "world \<Rightarrow> world \<Rightarrow> event list \<Rightarrow> bool" where
  "evolves w w' es \<longleftrightarrow>
     trace w' = trace w @ es \<and>
     (case pdfjsLibPromise w of
        None \<Rightarrow> True
      | Some p \<Rightarrow> pdfjsLibPromise w' = Some p \<and> InjectScript \<notin> set es)"

text \<open>
  A call keeps the cached promise \<open>p\<close>: after it the variable still holds \<open>p\<close>,
  and the call has only appended events, none of them the injection of the script.
\<close>

definition keeps :: "promise \<Rightarrow> world \<Rightarrow> world \<Rightarrow> bool" where
  "keeps p w w' \<longleftrightarrow>
     pdfjsLibPromise w' = Some p \<and> (\<exists>es. trace w' = trace w @ es \<and> InjectScript \<notin> set es)"

section \<open>Concrete files, documents and environments\<close>

text \<open>The six MIME types that the specification lists as accepted.\<close>

definition sixTypes :: "jsstring list" where
  "sixTypes = [js ''application/pdf'', js ''text/plain'',
      js ''application/vnd.openxmlformats-officedocument.wordprocessingml.document'',
      js ''application/msword'', js ''image/png'', js ''image/jpeg'']"

definition jpgFile :: jsfile where
  "jpgFile = \<lparr>file_name = js ''photo.jpg'', file_type = js ''image/jpg'', file_size = 2048,
     arrayBuffer = Inr (replicate 2048 0), readAsText = None\<rparr>"

definition gifFile :: jsfile where
  "gifFile = \<lparr>file_name = js ''anim.gif'', file_type = js ''image/gif'', file_size = 2048,
     arrayBuffer = Inr (replicate 2048 0), readAsText = None\<rparr>"

text \<open>The state of a page that has not yet used the PDF backend.\<close>

definition world0 :: world where
  "world0 = \<lparr>pdfjsLibPromise = None, trace = []\<rparr>"

text \<open>An outside where the script fails to load and every library call fails.\<close>

definition failingEnv :: env where
  "failingEnv = \<lparr>scriptLoads = False,
     getDocument = (\<lambda>b. Inl (js ''Invalid PDF structure'')),
     extractRawText = (\<lambda>b. Inl (js ''Could not find file in options'')),
     recognize = (\<lambda>b. Inl (js ''Error attempting to read image.''))\<rparr>"

text \<open>A PDF of 11 MiB, a small PNG image, and a text file holding \<open>" Hello "\<close>.\<close>

definition bigPdf :: jsfile where
  "bigPdf = \<lparr>file_name = js ''scan.pdf'', file_type = js ''application/pdf'',
     file_size = 11534336, arrayBuffer = Inr (replicate 11534336 0), readAsText = None\<rparr>"

definition pngFile :: jsfile where
  "pngFile = \<lparr>file_name = js ''cv.png'', file_type = js ''image/png'',
     file_size = 4, arrayBuffer = Inr [0x89, 0x50, 0x4E, 0x47], readAsText = None\<rparr>"

definition paddedTextFile :: jsfile where
  "paddedTextFile = \<lparr>file_name = js ''cv.txt'', file_type = js ''text/plain'',
     file_size = 7, arrayBuffer = Inr [0x20, 0x48, 0x65, 0x6C, 0x6C, 0x6F, 0x20],
     readAsText = Some (js '' Hello '')\<rparr>"

text \<open>A text file of a space and a tab, and an outside whose OCR reads a name.\<close>

definition blankTextFile :: jsfile where
  "blankTextFile = \<lparr>file_name = js ''empty.txt'', file_type = js ''text/plain'',
     file_size = 2, arrayBuffer = Inr [0x20, 0x09], readAsText = Some [0x20, 0x09]\<rparr>"

definition ocrEnv :: env where
  "ocrEnv = \<lparr>scriptLoads = True,
     getDocument = (\<lambda>b. Inl (js ''Invalid PDF structure'')),
     extractRawText = (\<lambda>b. Inl (js ''Could not find file in options'')),
     recognize = (\<lambda>b. Inr (js ''Jane Doe '' @ [0x0A]))\<rparr>"

text \<open>
  Three documents: one of four pages whose first three hold 18 characters in all and
  whose fourth holds a long line; one with a text layer of 68 characters; one with
  no text layer, whose page renders to an image. And an outside that serves them and
  whose OCR reads a name.
\<close>

definition fourPagePdf :: pdf where
  "fourPagePdf = \<lparr>numPages = 4,
     getPage = (\<lambda>i.
       if i = 1 then Inr \<lparr>getTextContent = Inr [js ''Jane'', js ''Doe''], render = Inr [1]\<rparr>
       else if i = 2 then Inr \<lparr>getTextContent = Inr [js ''Curriculum''], render = Inr [2]\<rparr>
       else if i = 3 then Inr \<lparr>getTextContent = Inr [], render = Inr [3]\<rparr>
       else if i = 4 then
         Inr \<lparr>getTextContent =
                Inr [js ''Software engineer with ten years of experience in compilers''],
              render = Inr [4]\<rparr>
       else Inl (js ''Invalid page request.''))\<rparr>"

definition textPdf :: pdf where
  "textPdf = \<lparr>numPages = 1,
     getPage = (\<lambda>i.
       if i = 1 then
         Inr \<lparr>getTextContent =
                Inr [js ''Jane Doe'',
                     js ''Software engineer with ten years of experience in compilers''],
              render = Inr [5]\<rparr>
       else Inl (js ''Invalid page request.''))\<rparr>"

definition scannedPdf :: pdf where
  "scannedPdf = \<lparr>numPages = 1,
     getPage = (\<lambda>i.
       if i = 1 then Inr \<lparr>getTextContent = Inr [], render = Inr [0x89, 0x50, 0x4E, 0x47]\<rparr>
       else Inl (js ''Invalid page request.''))\<rparr>"

definition pdfEnv :: env where
  "pdfEnv = \<lparr>scriptLoads = True,
     getDocument = (\<lambda>b.
       if b = [0x25, 0x50, 0x44, 0x46, 0x34] then Inr fourPagePdf
       else if b = [0x25, 0x50, 0x44, 0x46, 0x31] then Inr textPdf
       else if b = [0x25, 0x50, 0x44, 0x46, 0x30] then Inr scannedPdf
       else Inl (js ''Invalid PDF structure'')),
     extractRawText = (\<lambda>b. Inl (js ''Could not find file in options'')),
     recognize = (\<lambda>b. Inr (js ''Jane Doe '' @ [0x0A]))\<rparr>"

text \<open>The files of the second and the third document.\<close>

definition textPdfFile :: jsfile where
  "textPdfFile = \<lparr>file_name = js ''cv.pdf'', file_type = js ''application/pdf'',
     file_size = 5, arrayBuffer = Inr [0x25, 0x50, 0x44, 0x46, 0x31], readAsText = None\<rparr>"

definition scannedPdfFile :: jsfile where
  "scannedPdfFile = \<lparr>file_name = js ''scan.pdf'', file_type = js ''application/pdf'',
     file_size = 5, arrayBuffer = Inr [0x25, 0x50, 0x44, 0x46, 0x30], readAsText = None\<rparr>"

text \<open>The state after a first initialisation that failed.\<close>

definition rejectedWorld :: world where
  "rejectedWorld =
     \<lparr>pdfjsLibPromise = Some (Rejected (js ''Failed to load PDF.js library from CDN.'')),
      trace = [InjectScript]\<rparr>"

text \<open>A text file whose bytes can no longer be read when the page asks for them.\<close>

definition unreadableFile :: jsfile where
  "unreadableFile = \<lparr>file_name = js ''gone.txt'', file_type = js ''text/plain'',
     file_size = 7, arrayBuffer = Inl (js ''The requested file could not be read''),
     readAsText = None\<rparr>"

text \<open>
  Answers of the remote service: a response whose nested text is the JSON text of
  \<open>{"score":80}\<close>, and a response without candidates (a blocked prompt). Two
  outsides: one whose first two requests fail in the network, one whose first
  response is the blocked one.
\<close>

definition scoreText :: jsstring where
  "scoreText = js ''{'' @ [0x22] @ js ''score'' @ [0x22] @ js '':80}''"

definition goodResponse :: response where
  "goodResponse = \<lparr>ok = True, status = 200, statusText = js ''OK'',
     json = Inr (JObj [(js ''candidates'',
              JArr [JObj [(js ''content'',
                     JObj [(js ''parts'', JArr [JObj [(js ''text'', JStr scoreText)]]),
                           (js ''role'', JStr (js ''model''))])]])])\<rparr>"

definition blockedBody :: jsvalue where
  "blockedBody = JObj [(js ''promptFeedback'', JObj [(js ''blockReason'', JStr (js ''SAFETY''))])]"

definition blockedResponse :: response where
  "blockedResponse = \<lparr>ok = True, status = 200, statusText = js ''OK'',
     json = Inr blockedBody\<rparr>"

definition parseScore :: "jsvalue \<Rightarrow> jserror + jsvalue" where
  "parseScore v =
     (if v = JStr scoreText then Inr (JObj [(js ''score'', JNum 80)])
      else Inl (js ''Unexpected token in JSON''))"

definition flakyEnv :: "unit api_env" where
  "flakyEnv = \<lparr>apiKey = Some (js ''test-key''),
     fetch = (\<lambda>p k. if k < 2 then Inl (js ''Failed to fetch'') else Inr goodResponse),
     JSON_parse = parseScore\<rparr>"

definition blockedOnceEnv :: "unit api_env" where
  "blockedOnceEnv = \<lparr>apiKey = Some (js ''test-key''),
     fetch = (\<lambda>p k. if k = 0 then Inr blockedResponse else Inr goodResponse),
     JSON_parse = parseScore\<rparr>"

section \<open>Facts about strings\<close>

lemma length_js [simp]: "length (js s) = length s"
  by (simp add: js_def)

lemma js_append: "js (a @ b) = js a @ js b"
  by (simp add: js_def)

lemma js_unit_inject:
  "(word_of_nat (of_char c) :: 16 word) = word_of_nat (of_char d) \<longleftrightarrow> c = d"
proof -
  have "(of_char c :: nat) < 256" "(256 :: nat) < 2 ^ 16"
    by (rule nat_of_char_less_256) simp
  then have c: "(of_char c :: nat) < 2 ^ 16"
    by (rule less_trans)
  have "(of_char d :: nat) < 256" "(256 :: nat) < 2 ^ 16"
    by (rule nat_of_char_less_256) simp
  then have d: "(of_char d :: nat) < 2 ^ 16"
    by (rule less_trans)
  have tc: "take_bit 16 (of_char c :: nat) = of_char c"
    using c by (simp only: take_bit_nat_eq_self)
  have td: "take_bit 16 (of_char d :: nat) = of_char d"
    using d by (simp only: take_bit_nat_eq_self)
  have "(word_of_nat (of_char c) :: 16 word) = word_of_nat (of_char d)
     \<longleftrightarrow> take_bit 16 (of_char c :: nat) = take_bit 16 (of_char d :: nat)"
    by (simp only: word_of_nat_eq_iff len_bit0 len_num1 mult_1_right) simp
  also have "\<dots> \<longleftrightarrow> (of_char c :: nat) = of_char d"
    by (simp only: tc td)
  also have "\<dots> \<longleftrightarrow> c = d"
    by (rule of_char_eq_iff)
  finally show ?thesis .
qed

lemma js_inject: "js a = js b \<longleftrightarrow> a = b"
proof -
  have "inj (\<lambda>c. (word_of_nat (of_char c) :: 16 word))"
    by (rule injI) (simp only: js_unit_inject)
  then show ?thesis
    unfolding js_def by (rule inj_map_eq_map)
qed

lemma trim_Nil [simp]: "trim [] = []"
  by (simp add: trim_def)

lemma trim_fixed: "s = [] \<or> (\<not> isWhiteSpace (hd s) \<and> \<not> isWhiteSpace (last s)) \<Longrightarrow> trim s = s"
proof (cases "s = []")
  case True
  then show ?thesis by simp
next
  case False
  assume "s = [] \<or> (\<not> isWhiteSpace (hd s) \<and> \<not> isWhiteSpace (last s))"
  with False have h: "\<not> isWhiteSpace (hd s)" and l: "\<not> isWhiteSpace (last s)"
    by simp_all
  from False h have 1: "dropWhile isWhiteSpace s = s"
    by (cases s) simp_all
  from False l have 2: "dropWhile isWhiteSpace (rev s) = rev s"
    by (cases "rev s") (simp_all add: hd_rev [symmetric])
  show ?thesis
    by (simp add: trim_def 1 2)
qed

lemma trim_ends: "trim s = [] \<or> (\<not> isWhiteSpace (hd (trim s)) \<and> \<not> isWhiteSpace (last (trim s)))"
proof (cases "trim s = []")
  case True
  then show ?thesis by simp
next
  case False
  let ?t = "dropWhile isWhiteSpace s"
  let ?u = "dropWhile isWhiteSpace (rev ?t)"
  have ts: "trim s = rev ?u"
    by (simp add: trim_def)
  with False have u: "?u \<noteq> []"
    by simp
  have t: "?t \<noteq> []"
  proof
    assume e: "?t = []"
    have "?u = []"
      unfolding e by simp
    with u show False ..
  qed
  have "\<not> isWhiteSpace (hd ?u)"
    using u by (rule hd_dropWhile)
  then have l: "\<not> isWhiteSpace (last (trim s))"
    using u by (simp add: ts last_rev)
  have "\<not> isWhiteSpace (hd ?t)"
    using t by (rule hd_dropWhile)
  then have "\<not> isWhiteSpace (last (rev ?t))"
    using t by (simp add: last_rev)
  moreover have "last ?u = last (rev ?t)"
  proof -
    obtain ys where "rev ?t = ys @ ?u"
      by (metis takeWhile_dropWhile_id)
    with u show ?thesis
      by (metis last_appendR)
  qed
  ultimately have "\<not> isWhiteSpace (hd (trim s))"
    using u by (simp add: ts hd_rev)
  with l show ?thesis
    by simp
qed

lemma trim_idem [simp]: "trim (trim s) = trim s"
  by (rule trim_fixed) (rule trim_ends)

lemma js_eq_Nil [simp]: "js s = [] \<longleftrightarrow> s = []"
  by (simp add: js_def)

section \<open>The validator\<close>

text \<open>
  C8 (amended). For a file within the size limit, \<open>validateFile\<close> accepts the
  declared type when it is one of the six listed MIME types or \<open>image/jpg\<close>, the
  seventh key of \<open>SUPPORTED_FILE_TYPES\<close>; a declared type that is none of the seven
  and not the name of a property inherited from \<open>Object.prototype\<close> is rejected
  with a message that names it.
\<close>

theorem validateFile_type:
  assumes "file_size f \<le> MAX_FILE_SIZE"
  shows "(file_type f \<in> set sixTypes \<or> file_type f = js ''image/jpg''
            \<longrightarrow> validateFile f = \<lparr>success = True, message = js ''File is valid''\<rparr>)
       \<and> (file_type f \<notin> set sixTypes \<and> file_type f \<noteq> js ''image/jpg''
            \<and> file_type f \<notin> set inheritedProps
            \<longrightarrow> validateFile f =
                 \<lparr>success = False,
                  message = js ''Unsupported file type: '' @ file_type f @
                            js ''. Supported types: PDF, TXT, DOCX, DOC, PNG, JPG''\<rparr>)"
  using assms
  by (auto simp: validateFile_def lookupSupported_def SUPPORTED_FILE_TYPES_def sixTypes_def)

text \<open>
  The claim as stated fails: a file of declared type \<open>image/jpg\<close>, which is not
  one of the six, is accepted.
\<close>

theorem validateFile_type_counterexample:
  "file_size jpgFile \<le> MAX_FILE_SIZE \<and> file_type jpgFile \<notin> set sixTypes
     \<and> success (validateFile jpgFile)"
  by (simp add: jpgFile_def MAX_FILE_SIZE_def sixTypes_def validateFile_def lookupSupported_def
       SUPPORTED_FILE_TYPES_def js_inject)

theorem validateFile_type_witness:
  "validateFile jpgFile = \<lparr>success = True, message = js ''File is valid''\<rparr>
   \<and> validateFile gifFile =
        \<lparr>success = False,
         message = js ''Unsupported file type: image/gif. Supported types: PDF, TXT, DOCX, DOC, PNG, JPG''\<rparr>"
proof -
  have a: "file_size jpgFile \<le> MAX_FILE_SIZE" and b: "file_size gifFile \<le> MAX_FILE_SIZE"
    by (simp_all add: jpgFile_def gifFile_def MAX_FILE_SIZE_def)
  have c: "file_type jpgFile = js ''image/jpg''"
    by (simp add: jpgFile_def)
  have e: "file_type gifFile = js ''image/gif''"
    by (simp add: gifFile_def)
  have d: "file_type gifFile \<notin> set sixTypes \<and> file_type gifFile \<noteq> js ''image/jpg''
            \<and> file_type gifFile \<notin> set inheritedProps"
    unfolding e by (simp add: sixTypes_def inheritedProps_def js_inject)
  have m: "js ''Unsupported file type: '' @ js ''image/gif'' @
       js ''. Supported types: PDF, TXT, DOCX, DOC, PNG, JPG'' =
     js ''Unsupported file type: image/gif. Supported types: PDF, TXT, DOCX, DOC, PNG, JPG''"
    by (simp add: js_append [symmetric])
  from validateFile_type [OF a] c
  have 1: "validateFile jpgFile = \<lparr>success = True, message = js ''File is valid''\<rparr>"
    by blast
  from validateFile_type [OF b] d
  have 2: "validateFile gifFile = \<lparr>success = False,
                  message = js ''Unsupported file type: '' @ file_type gifFile @
                            js ''. Supported types: PDF, TXT, DOCX, DOC, PNG, JPG''\<rparr>"
    by blast
  show ?thesis
    unfolding 1 2 e m by simp
qed

section \<open>One file\<close>

lemma extractTextFromFile_invalid:
  "\<not> success (validateFile f) \<Longrightarrow>
     extractTextFromFile en f w = (Inl (message (validateFile f)), w)"
  by (simp add: extractTextFromFile_def)

lemma extractTextFromFile_unreadable:
  "success (validateFile f) \<Longrightarrow> arrayBuffer f = Inl e \<Longrightarrow>
     extractTextFromFile en f w = (Inl e, w)"
  by (simp add: extractTextFromFile_def)

lemma extractTextFromFile_caught:
  "success (validateFile f) \<Longrightarrow> arrayBuffer f = Inr b \<Longrightarrow>
   extractSwitch en f b w = (Inl e, w1) \<Longrightarrow>
     extractTextFromFile en f w = (Inr (Failure e (file_name f) (file_size f) (file_type f)), w1)"
  by (simp add: extractTextFromFile_def)

lemma extractTextFromFile_empty:
  "success (validateFile f) \<Longrightarrow> arrayBuffer f = Inr b \<Longrightarrow>
   extractSwitch en f b w = (Inr (t, m), w1) \<Longrightarrow> trim t = [] \<Longrightarrow>
     extractTextFromFile en f w =
       (Inr (Failure (js ''No text content found in the file'')
               (file_name f) (file_size f) (file_type f)), w1)"
  by (simp add: extractTextFromFile_def)

lemma extractTextFromFile_nonblank:
  "success (validateFile f) \<Longrightarrow> arrayBuffer f = Inr b \<Longrightarrow>
   extractSwitch en f b w = (Inr (t, m), w1) \<Longrightarrow> trim t \<noteq> [] \<Longrightarrow>
     extractTextFromFile en f w =
       (Inr (Success t m (file_name f) (file_size f) (file_type f)), w1)"
  by (auto simp add: extractTextFromFile_def)

text \<open>
  C2 (amended). \<open>extractTextFromFile\<close> throws the validation message for a file
  that fails validation. For a file that passes validation and whose buffer is
  read, it returns an object carrying the file's name, size and type, whatever
  happens in the extraction: an error thrown there comes back as the failure object
  with that error.
\<close>

theorem extractTextFromFile_throws:
  "(\<not> success (validateFile f) \<longrightarrow>
      extractTextFromFile en f w = (Inl (message (validateFile f)), w))
   \<and> (success (validateFile f) \<and> arrayBuffer f = Inr b \<longrightarrow>
        (\<exists>r w'. extractTextFromFile en f w = (Inr r, w')
           \<and> res_fileName r = file_name f \<and> res_fileSize r = file_size f
           \<and> res_fileType r = file_type f
           \<and> (\<forall>e w1. extractSwitch en f b w = (Inl e, w1) \<longrightarrow>
                 r = Failure e (file_name f) (file_size f) (file_type f) \<and> w' = w1)))"
proof (intro conjI impI)
  assume "\<not> success (validateFile f)"
  then show "extractTextFromFile en f w = (Inl (message (validateFile f)), w)"
    by (rule extractTextFromFile_invalid)
next
  assume a: "success (validateFile f) \<and> arrayBuffer f = Inr b"
  obtain x w1 where sw: "extractSwitch en f b w = (x, w1)"
    by (cases "extractSwitch en f b w")
  show "\<exists>r w'. extractTextFromFile en f w = (Inr r, w')
           \<and> res_fileName r = file_name f \<and> res_fileSize r = file_size f
           \<and> res_fileType r = file_type f
           \<and> (\<forall>e w1. extractSwitch en f b w = (Inl e, w1) \<longrightarrow>
                 r = Failure e (file_name f) (file_size f) (file_type f) \<and> w' = w1)"
  proof (cases x)
    case (Inl e)
    with a sw show ?thesis
      by (simp add: extractTextFromFile_caught)
  next
    case (Inr tm)
    obtain t m where tm: "tm = (t, m)"
      by (cases tm)
    show ?thesis
    proof (cases "trim t = []")
      case True
      with a sw Inr tm show ?thesis
        by (simp add: extractTextFromFile_empty)
    next
      case False
      with a sw Inr tm show ?thesis
        by (simp add: extractTextFromFile_nonblank)
    qed
  qed
qed

text \<open>
  The claim as stated fails: for the PDF of 11 MiB the call throws, and no object
  is returned.
\<close>

theorem extractTextFromFile_throws_counterexample:
  "extractTextFromFile failingEnv bigPdf world0 =
     (Inl (js ''File size exceeds 10MB limit. Current size: 11.00MB''), world0)"
proof -
  have "toFixed2MB 11534336 = js ''11.00''"
    by (simp add: toFixed2MB_def js_def toStringNat.simps digit_def)
  then show ?thesis
    by (simp add: extractTextFromFile_def validateFile_def bigPdf_def MAX_FILE_SIZE_def
        js_append [symmetric])
qed


theorem extractTextFromFile_throws_witness:
  "extractTextFromFile failingEnv bigPdf world0 =
     (Inl (js ''File size exceeds 10MB limit. Current size: 11.00MB''), world0)
   \<and> fst (extractTextFromFile failingEnv pngFile world0) =
       Inr (Failure (js ''Failed to extract text from image: Error attempting to read image.'')
              (js ''cv.png'') 4 (js ''image/png''))"
proof -
  have fx: "toFixed2MB 11534336 = js ''11.00''"
    by (simp add: toFixed2MB_def js_def toStringNat.simps digit_def)
  have v1: "\<not> success (validateFile bigPdf)"
    and m1: "message (validateFile bigPdf) =
      js ''File size exceeds 10MB limit. Current size: 11.00MB''"
    by (simp_all add: validateFile_def bigPdf_def MAX_FILE_SIZE_def fx js_append [symmetric])
  have v2: "success (validateFile pngFile) \<and> arrayBuffer pngFile = Inr [0x89, 0x50, 0x4E, 0x47]"
    by (simp add: validateFile_def pngFile_def MAX_FILE_SIZE_def lookupSupported_def
        SUPPORTED_FILE_TYPES_def js_inject)
  have sw: "extractSwitch failingEnv pngFile [0x89, 0x50, 0x4E, 0x47] world0 =
      (Inl (js ''Failed to extract text from image: Error attempting to read image.''),
       emit (Recognize [0x89, 0x50, 0x4E, 0x47]) world0)"
    by (simp add: extractSwitch_def pngFile_def js_inject extractTextFromImage_def
        failingEnv_def js_append [symmetric])
  have f: "file_name pngFile = js ''cv.png''" "file_size pngFile = 4"
      "file_type pngFile = js ''image/png''"
    by (simp_all add: pngFile_def)
  from extractTextFromFile_throws [where f = bigPdf and en = failingEnv and w = world0] v1 m1
  have 1: "extractTextFromFile failingEnv bigPdf world0 =
     (Inl (js ''File size exceeds 10MB limit. Current size: 11.00MB''), world0)"
    by simp
  from extractTextFromFile_throws [where f = pngFile and en = failingEnv and w = world0
      and b = "[0x89, 0x50, 0x4E, 0x47]"] v2 sw
  have 2: "fst (extractTextFromFile failingEnv pngFile world0) =
       Inr (Failure (js ''Failed to extract text from image: Error attempting to read image.'')
              (file_name pngFile) (file_size pngFile) (file_type pngFile))"
    by auto
  from 1 2 show ?thesis
    by (simp only: f simp_thms)
qed

lemma extractTextFromPDF_trimmed:
  "extractTextFromPDF en b w = (Inr t, w') \<Longrightarrow> trim t = t"
  by (auto simp: extractTextFromPDF_def extractTextFromPDF_try_def Let_def
      split: prod.splits sum.splits promise.splits)

lemma processScannedPDF_trimmed:
  "processScannedPDF en b n w = (Inr t, w') \<Longrightarrow> trim t = t"
  by (auto simp: processScannedPDF_def processScannedPDF_try_def Let_def
      split: prod.splits sum.splits promise.splits)

lemma extractTextFromDocx_trimmed:
  "extractTextFromDocx en b w = (Inr t, w') \<Longrightarrow> trim t = t"
  by (auto simp: extractTextFromDocx_def Let_def split: sum.splits)

lemma extractTextFromImage_trimmed:
  "extractTextFromImage en b n w = (Inr t, w') \<Longrightarrow> trim t = t"
  by (auto simp: extractTextFromImage_def Let_def split: sum.splits)

lemma extractSwitch_trimmed:
  assumes "extractSwitch en f b w = (Inr (t, m), w')" and "file_type f \<noteq> js ''text/plain''"
  shows "trim t = t"
  using assms
  by (auto simp: extractSwitch_def
      dest: extractTextFromPDF_trimmed processScannedPDF_trimmed extractTextFromDocx_trimmed
        extractTextFromImage_trimmed
      split: if_splits prod.splits sum.splits)

lemma extractSwitch_text:
  "file_type f = js ''text/plain'' \<Longrightarrow> readAsText f = Some S \<Longrightarrow>
     extractSwitch en f b w = (Inr (S, js ''Direct text reading''), w)"
  by (simp add: extractSwitch_def)

lemma extractTextFromFile_Success:
  assumes "extractTextFromFile en f w = (Inr (Success t m n s ty), w')"
  shows "\<exists>b. success (validateFile f) \<and> arrayBuffer f = Inr b
           \<and> extractSwitch en f b w = (Inr (t, m), w') \<and> trim t \<noteq> []"
  using assms
  by (auto simp: extractTextFromFile_def Let_def split: if_splits sum.splits prod.splits)

text \<open>
  C3 (amended). The text of a success object is never empty and never blank (its
  trim is not empty), and for every declared type but \<open>text/plain\<close> it is trimmed.
  A plain-text file read as \<open>S\<close>, with \<open>S.trim()\<close> not empty, yields the text
  \<open>S\<close> itself, untrimmed, with the method of direct reading. An extraction whose
  text is empty or blank yields the failure object with the error
  \<open>No text content found in the file\<close>.
\<close>

theorem extractTextFromFile_text_invariant:
  "(extractTextFromFile en f w = (Inr (Success t m n s ty), w') \<longrightarrow>
      t \<noteq> [] \<and> trim t \<noteq> [] \<and> (file_type f \<noteq> js ''text/plain'' \<longrightarrow> trim t = t))
   \<and> (success (validateFile f) \<and> arrayBuffer f = Inr b \<and> file_type f = js ''text/plain''
        \<and> readAsText f = Some S \<and> trim S \<noteq> [] \<longrightarrow>
        extractTextFromFile en f w =
          (Inr (Success S (js ''Direct text reading'')
                  (file_name f) (file_size f) (file_type f)), w))
   \<and> (success (validateFile f) \<and> arrayBuffer f = Inr b
        \<and> extractSwitch en f b w = (Inr (x, m'), w1) \<and> trim x = [] \<longrightarrow>
        extractTextFromFile en f w =
          (Inr (Failure (js ''No text content found in the file'')
                  (file_name f) (file_size f) (file_type f)), w1))"
proof (intro conjI impI)
  assume a: "extractTextFromFile en f w = (Inr (Success t m n s ty), w')"
  then obtain b' where sw: "extractSwitch en f b' w = (Inr (t, m), w')" and t: "trim t \<noteq> []"
    using extractTextFromFile_Success by blast
  from t show "trim t \<noteq> []" .
  from t show "t \<noteq> []"
    by auto
  assume "file_type f \<noteq> js ''text/plain''"
  with sw show "trim t = t"
    by (rule extractSwitch_trimmed)
next
  assume "success (validateFile f) \<and> arrayBuffer f = Inr b \<and> file_type f = js ''text/plain''
        \<and> readAsText f = Some S \<and> trim S \<noteq> []"
  then show "extractTextFromFile en f w =
          (Inr (Success S (js ''Direct text reading'')
                  (file_name f) (file_size f) (file_type f)), w)"
    using extractTextFromFile_nonblank [OF _ _ extractSwitch_text] by blast
next
  assume "success (validateFile f) \<and> arrayBuffer f = Inr b
        \<and> extractSwitch en f b w = (Inr (x, m'), w1) \<and> trim x = []"
  then show "extractTextFromFile en f w =
          (Inr (Failure (js ''No text content found in the file'')
                  (file_name f) (file_size f) (file_type f)), w1)"
    using extractTextFromFile_empty by blast
qed

text \<open>
  The claim as stated fails: the text file holding \<open>" Hello "\<close> yields a success
  object whose text is \<open>" Hello "\<close>, which is not its own trim \<open>"Hello"\<close>.
\<close>

theorem extractTextFromFile_text_invariant_counterexample:
  "extractTextFromFile failingEnv paddedTextFile world0 =
     (Inr (Success (js '' Hello '') (js ''Direct text reading'')
             (js ''cv.txt'') 7 (js ''text/plain'')), world0)
   \<and> trim (js '' Hello '') = js ''Hello'' \<and> js '' Hello '' \<noteq> js ''Hello''"
proof -
  have t: "trim (js '' Hello '') = js ''Hello''"
    by (simp add: trim_def js_def isWhiteSpace_def)
  have v: "success (validateFile paddedTextFile)"
    by (simp add: validateFile_def paddedTextFile_def MAX_FILE_SIZE_def lookupSupported_def
        SUPPORTED_FILE_TYPES_def js_inject)
  have "extractTextFromFile failingEnv paddedTextFile world0 =
     (Inr (Success (js '' Hello '') (js ''Direct text reading'')
             (file_name paddedTextFile) (file_size paddedTextFile) (file_type paddedTextFile)),
      world0)"
    by (rule extractTextFromFile_nonblank [OF v _ extractSwitch_text])
      (simp_all add: paddedTextFile_def t)
  then show ?thesis
    by (simp add: t js_inject) (simp add: paddedTextFile_def)
qed


theorem extractTextFromFile_text_invariant_witness:
  "trim (js ''Jane Doe'') = js ''Jane Doe''
   \<and> extractTextFromFile failingEnv paddedTextFile world0 =
       (Inr (Success (js '' Hello '') (js ''Direct text reading'')
               (js ''cv.txt'') 7 (js ''text/plain'')), world0)
   \<and> extractTextFromFile failingEnv blankTextFile world0 =
       (Inr (Failure (js ''No text content found in the file'')
               (js ''empty.txt'') 2 (js ''text/plain'')), world0)"
proof -
  have t1: "trim (js ''Jane Doe '' @ [0x0A]) = js ''Jane Doe''"
    by (simp add: trim_def js_def isWhiteSpace_def)
  have t1n: "trim (js ''Jane Doe'') \<noteq> []"
    using trim_idem [of "js ''Jane Doe '' @ [0x0A]"] unfolding t1 by simp
  have p: "extractTextFromFile ocrEnv pngFile world0 =
      (Inr (Success (js ''Jane Doe'') (js ''OCR (image)'') (js ''cv.png'') 4 (js ''image/png'')),
       emit (Recognize [0x89, 0x50, 0x4E, 0x47]) world0)"
    by (simp add: extractTextFromFile_def validateFile_def pngFile_def MAX_FILE_SIZE_def
        lookupSupported_def SUPPORTED_FILE_TYPES_def js_inject extractSwitch_def
        extractTextFromImage_def ocrEnv_def t1 t1n)
  have ty: "file_type pngFile \<noteq> js ''text/plain''"
    by (simp add: pngFile_def js_inject)
  have 1: "trim (js ''Jane Doe'') = js ''Jane Doe''"
    using extractTextFromFile_text_invariant [where en = ocrEnv and f = pngFile and w = world0
        and t = "js ''Jane Doe''" and m = "js ''OCR (image)''" and n = "js ''cv.png''"
        and s = 4 and ty = "js ''image/png''"
        and w' = "emit (Recognize [0x89, 0x50, 0x4E, 0x47]) world0"] p ty
    by blast
  have t2: "trim (js '' Hello '') \<noteq> []"
    by (simp add: trim_def js_def isWhiteSpace_def)
  have v2: "success (validateFile paddedTextFile)
      \<and> arrayBuffer paddedTextFile = Inr [0x20, 0x48, 0x65, 0x6C, 0x6C, 0x6F, 0x20]
      \<and> file_type paddedTextFile = js ''text/plain''
      \<and> readAsText paddedTextFile = Some (js '' Hello '') \<and> trim (js '' Hello '') \<noteq> []"
    by (simp add: validateFile_def paddedTextFile_def MAX_FILE_SIZE_def lookupSupported_def
        SUPPORTED_FILE_TYPES_def js_inject t2)
  have 2: "extractTextFromFile failingEnv paddedTextFile world0 =
       (Inr (Success (js '' Hello '') (js ''Direct text reading'')
               (file_name paddedTextFile) (file_size paddedTextFile)
               (file_type paddedTextFile)), world0)"
    using extractTextFromFile_text_invariant [where en = failingEnv and f = paddedTextFile
        and w = world0 and b = "[0x20, 0x48, 0x65, 0x6C, 0x6C, 0x6F, 0x20]"
        and S = "js '' Hello ''"] v2
    by blast
  have t3: "trim [0x20, 0x09] = []"
    by (simp add: trim_def isWhiteSpace_def)
  have v3: "success (validateFile blankTextFile)
      \<and> arrayBuffer blankTextFile = Inr [0x20, 0x09]
      \<and> extractSwitch failingEnv blankTextFile [0x20, 0x09] world0 =
          (Inr ([0x20, 0x09], js ''Direct text reading''), world0)
      \<and> trim [0x20, 0x09] = []"
    by (simp add: validateFile_def blankTextFile_def MAX_FILE_SIZE_def lookupSupported_def
        SUPPORTED_FILE_TYPES_def js_inject t3 extractSwitch_def)
  have 3: "extractTextFromFile failingEnv blankTextFile world0 =
       (Inr (Failure (js ''No text content found in the file'')
               (file_name blankTextFile) (file_size blankTextFile)
               (file_type blankTextFile)), world0)"
    using extractTextFromFile_text_invariant [where en = failingEnv and f = blankTextFile
        and w = world0 and b = "[0x20, 0x09]" and x = "[0x20, 0x09]"
        and m' = "js ''Direct text reading''" and ?w1.0 = world0] v3
    by blast
  have f: "file_name paddedTextFile = js ''cv.txt''" "file_size paddedTextFile = 7"
    "file_type paddedTextFile = js ''text/plain''"
    "file_name blankTextFile = js ''empty.txt''" "file_size blankTextFile = 2"
    "file_type blankTextFile = js ''text/plain''"
    by (simp_all add: paddedTextFile_def blankTextFile_def)
  from 1 2 3 show ?thesis
    by (simp only: f simp_thms)
qed

section \<open>The state and its trace\<close>

lemma evolves_refl: "evolves w w []"
  by (simp add: evolves_def split: option.splits)

lemma evolves_trans: "evolves w w1 es1 \<Longrightarrow> evolves w1 w2 es2 \<Longrightarrow> evolves w w2 (es1 @ es2)"
  by (auto simp: evolves_def split: option.splits)

lemma evolves_emit: "e \<noteq> InjectScript \<Longrightarrow> evolves w (emit e w) [e]"
  by (simp add: evolves_def emit_def split: option.splits)

lemma evolves_emit_then:
  "e \<noteq> InjectScript \<Longrightarrow> evolves (emit e w) w' es \<Longrightarrow> evolves w w' (e # es)"
  using evolves_trans [OF evolves_emit, of e w w' es] by simp

lemma loadPdfJs_cached: "pdfjsLibPromise w = Some p \<Longrightarrow> loadPdfJs en w = (p, w)"
  by (simp add: loadPdfJs_def)

lemma loadPdfJs_first:
  "pdfjsLibPromise w = None \<Longrightarrow>
     loadPdfJs en w =
       ((if scriptLoads en then Resolved
         else Rejected (js ''Failed to load PDF.js library from CDN.'')),
        emit InjectScript
          (w\<lparr>pdfjsLibPromise :=
               Some (if scriptLoads en then Resolved
                     else Rejected (js ''Failed to load PDF.js library from CDN.''))\<rparr>))"
  by (simp add: loadPdfJs_def Let_def)

lemma loadPdfJs_evolves:
  "loadPdfJs en w = (p, w') \<Longrightarrow>
     evolves w w' (if pdfjsLibPromise w = None then [InjectScript] else [])
     \<and> pdfjsLibPromise w' = Some p"
  by (auto simp: loadPdfJs_def evolves_def emit_def Let_def split: option.splits)

lemma textLoop_evolves:
  "textLoop d i t w = (r, w') \<Longrightarrow> \<exists>es. evolves w w' es \<and> set es \<subseteq> range GetPage"
proof (induction d i t w arbitrary: r w' rule: textLoop.induct)
  case (1 d i fullText w)
  show ?case
  proof (cases "i \<le> numPages d")
    case False
    with "1.prems" have "w' = w"
      by (simp add: textLoop.simps [of d i])
    then show ?thesis
      using evolves_refl by fastforce
  next
    case True
    let ?w1 = "emit (GetPage i) w"
    have e1: "evolves w ?w1 [GetPage i]"
      by (simp add: evolves_emit)
    show ?thesis
    proof (cases "getPage d i")
      case (Inl e)
      with True "1.prems" have "w' = ?w1"
        by (simp add: textLoop.simps [of d i])
      with e1 show ?thesis
        by fastforce
    next
      case (Inr pg)
      show ?thesis
      proof (cases "getTextContent pg")
        case (Inl e)
        with True Inr "1.prems" have "w' = ?w1"
          by (simp add: textLoop.simps [of d i])
        with e1 show ?thesis
          by fastforce
      next
        case items: (Inr items)
        with True Inr "1.prems"
        have "textLoop d (i + 1) (fullText @ joinItems items @ js [CHR 0x0A]) ?w1 = (r, w')"
          by (simp add: textLoop.simps [of d i])
        with "1.IH" [OF True refl Inr items]
        obtain es where "evolves ?w1 w' es" "set es \<subseteq> range GetPage"
          by blast
        then have "evolves w w' (GetPage i # es)" "set (GetPage i # es) \<subseteq> range GetPage"
          by (simp_all add: evolves_emit_then)
        then show ?thesis
          by blast
      qed
    qed
  qed
qed


section \<open>The extractors and the state\<close>

lemma extractTextFromImage_evolves:
  "extractTextFromImage en b n w = (r, w') \<Longrightarrow> evolves w w' [Recognize b]"
  by (auto simp: extractTextFromImage_def Let_def evolves_emit split: sum.splits)

lemma extractTextFromDocx_evolves:
  "extractTextFromDocx en b w = (r, w') \<Longrightarrow> evolves w w' [ExtractRawText b]"
  by (auto simp: extractTextFromDocx_def Let_def evolves_emit split: sum.splits)

lemma ocrLoop_evolves:
  "ocrLoop en d n i t w = (r, w') \<Longrightarrow>
     \<exists>es. evolves w w' es \<and> ProcessScannedPDF \<notin> set es"
proof (induction en d n i t w arbitrary: r w' rule: ocrLoop.induct)
  case (1 en d n i fullText w)
  show ?case
  proof (cases "i \<le> numPages d")
    case False
    with "1.prems" have "w' = w"
      by (simp add: ocrLoop.simps [of en d n i])
    then show ?thesis
      using evolves_refl by fastforce
  next
    case True
    let ?w1 = "emit (GetPage i) w"
    let ?w2 = "emit (RenderPage i) ?w1"
    have e1: "evolves w ?w1 [GetPage i]"
      by (simp add: evolves_emit)
    have e2: "evolves w ?w2 [GetPage i, RenderPage i]"
      using evolves_trans [OF e1 evolves_emit, of "RenderPage i"] by simp
    show ?thesis
    proof (cases "getPage d i")
      case (Inl e)
      with True "1.prems" have "w' = ?w1"
        by (simp add: ocrLoop.simps [of en d n i])
      with e1 show ?thesis
        by fastforce
    next
      case (Inr pg)
      show ?thesis
      proof (cases "render pg")
        case (Inl e)
        with True Inr "1.prems" have "w' = ?w2"
          by (simp add: ocrLoop.simps [of en d n i])
        with e2 show ?thesis
          by fastforce
      next
        case img: (Inr imageBuffer)
        obtain x w3 where
          ei: "extractTextFromImage en imageBuffer (n @ js '' - Page '' @ toStringNat i) ?w2 =
                (x, w3)"
          by (cases "extractTextFromImage en imageBuffer (n @ js '' - Page '' @ toStringNat i) ?w2")
        have e3: "evolves w w3 [GetPage i, RenderPage i, Recognize imageBuffer]"
          using evolves_trans [OF e2 extractTextFromImage_evolves [OF ei]] by simp
        show ?thesis
        proof (cases x)
          case (Inl e)
          with True Inr img ei "1.prems" have "w' = w3"
            by (simp add: ocrLoop.simps [of en d n i])
          with e3 show ?thesis
            by fastforce
        next
          case ptext: (Inr pageText)
          with ptext True Inr img ei "1.prems"
          have "ocrLoop en d n (i + 1) (fullText @ pageText @ js [CHR 0x0A, CHR 0x0A]) w3 =
              (r, w')"
            by (simp add: ocrLoop.simps [of en d n i])
          with "1.IH" [OF True refl Inr refl img ei [symmetric] ptext]
          obtain es where es: "evolves w3 w' es" "ProcessScannedPDF \<notin> set es"
            by auto
          have "evolves w w' ([GetPage i, RenderPage i, Recognize imageBuffer] @ es)"
            using e3 es(1) by (rule evolves_trans)
          moreover
          have "ProcessScannedPDF \<notin> set ([GetPage i, RenderPage i, Recognize imageBuffer] @ es)"
            using es(2) by simp
          ultimately show ?thesis
            by blast
        qed
      qed
    qed
  qed
qed


lemma extractTextFromPDF_try_evolves:
  assumes "extractTextFromPDF_try en b w = (r, w')"
  shows "\<exists>es. evolves w w' es \<and> ProcessScannedPDF \<notin> set es"
proof -
  obtain p w1 where l: "loadPdfJs en w = (p, w1)"
    by (cases "loadPdfJs en w")
  let ?pre = "if pdfjsLibPromise w = None then [InjectScript] else []"
  have e1: "evolves w w1 ?pre"
    using loadPdfJs_evolves [OF l] by simp
  show ?thesis
  proof (cases p)
    case (Rejected e)
    with assms l have "w' = w1"
      by (simp add: extractTextFromPDF_try_def)
    with e1 show ?thesis
      by (intro exI [of _ ?pre]) simp
  next
    case Resolved
    let ?w2 = "emit (GetDocument b) w1"
    have e2: "evolves w ?w2 (?pre @ [GetDocument b])"
      using evolves_trans [OF e1 evolves_emit] by simp
    show ?thesis
    proof (cases "getDocument en b")
      case (Inl e)
      with assms l Resolved have "w' = ?w2"
        by (simp add: extractTextFromPDF_try_def)
      with e2 show ?thesis
        by (intro exI [of _ "?pre @ [GetDocument b]"]) simp
    next
      case (Inr d)
      obtain x w3 where tl: "textLoop d 1 [] ?w2 = (x, w3)"
        by (cases "textLoop d 1 [] ?w2")
      with assms l Resolved Inr have w': "w' = w3"
        by (auto simp: extractTextFromPDF_try_def split: sum.splits)
      from textLoop_evolves [OF tl]
      obtain es where es: "evolves ?w2 w3 es" "set es \<subseteq> range GetPage"
        by blast
      have "evolves w w' ((?pre @ [GetDocument b]) @ es)"
        unfolding w' using e2 es(1) by (rule evolves_trans)
      moreover have "ProcessScannedPDF \<notin> set ((?pre @ [GetDocument b]) @ es)"
        using es(2) by auto
      ultimately show ?thesis
        by blast
    qed
  qed
qed

lemma extractTextFromPDF_evolves:
  assumes "extractTextFromPDF en b w = (r, w')"
  shows "\<exists>es. evolves w w' es \<and> ProcessScannedPDF \<notin> set es"
proof -
  obtain x where "extractTextFromPDF_try en b w = (x, w')"
    using assms by (auto simp: extractTextFromPDF_def split: prod.splits sum.splits)
  then show ?thesis
    by (rule extractTextFromPDF_try_evolves)
qed

lemma processScannedPDF_try_evolves:
  assumes "processScannedPDF_try en b n w = (r, w')"
  shows "\<exists>es. evolves w w' es"
proof -
  obtain p w1 where l: "loadPdfJs en w = (p, w1)"
    by (cases "loadPdfJs en w")
  let ?pre = "if pdfjsLibPromise w = None then [InjectScript] else []"
  have e1: "evolves w w1 ?pre"
    using loadPdfJs_evolves [OF l] by simp
  show ?thesis
  proof (cases p)
    case (Rejected e)
    with assms l have "w' = w1"
      by (simp add: processScannedPDF_try_def)
    with e1 show ?thesis
      by blast
  next
    case Resolved
    let ?w2 = "emit (GetDocument b) w1"
    have e2: "evolves w ?w2 (?pre @ [GetDocument b])"
      using evolves_trans [OF e1 evolves_emit] by simp
    show ?thesis
    proof (cases "getDocument en b")
      case (Inl e)
      with assms l Resolved have "w' = ?w2"
        by (simp add: processScannedPDF_try_def)
      with e2 show ?thesis
        by blast
    next
      case (Inr d)
      obtain x w3 where tl: "ocrLoop en d n 1 [] ?w2 = (x, w3)"
        by (cases "ocrLoop en d n 1 [] ?w2")
      with assms l Resolved Inr have w': "w' = w3"
        by (auto simp: processScannedPDF_try_def split: sum.splits)
      from ocrLoop_evolves [OF tl]
      obtain es where es: "evolves ?w2 w3 es"
        by blast
      have "evolves w w' ((?pre @ [GetDocument b]) @ es)"
        unfolding w' using e2 es by (rule evolves_trans)
      then show ?thesis
        by blast
    qed
  qed
qed

lemma processScannedPDF_evolves:
  assumes "processScannedPDF en b n w = (r, w')"
  shows "\<exists>es. evolves w w' (ProcessScannedPDF # es)"
proof -
  obtain x where "processScannedPDF_try en b n (emit ProcessScannedPDF w) = (x, w')"
    using assms by (auto simp: processScannedPDF_def split: prod.splits sum.splits)
  then obtain es where "evolves (emit ProcessScannedPDF w) w' es"
    using processScannedPDF_try_evolves by blast
  then have "evolves w w' (ProcessScannedPDF # es)"
    by (simp add: evolves_emit_then)
  then show ?thesis ..
qed

lemma extractSwitch_pdf:
  "file_type f = js ''application/pdf'' \<Longrightarrow>
     extractSwitch en f b w =
       (case extractTextFromPDF en b w of
          (Inl e, w1) \<Rightarrow> (Inl e, w1)
        | (Inr t, w1) \<Rightarrow>
            (if length t < 50 then
               (case processScannedPDF en b (file_name f) w1 of
                  (Inl e, w2) \<Rightarrow> (Inl e, w2)
                | (Inr t2, w2) \<Rightarrow> (Inr (t2, js ''OCR (scanned PDF)''), w2))
             else (Inr (t, js ''PDF text extraction''), w1)))"
  by (simp add: extractSwitch_def js_inject)

section \<open>The scanned-document check\<close>

lemma scanLoop_evolves:
  "scanLoop d m i tot w = (r, w') \<Longrightarrow>
     \<exists>es. evolves w w' es \<and> set es \<subseteq> GetPage ` {i..m} \<and> length es \<le> Suc m - i"
proof (induction d m i tot w arbitrary: r w' rule: scanLoop.induct)
  case (1 d m i tot w)
  show ?case
  proof (cases "i \<le> m")
    case False
    with "1.prems" have "w' = w"
      by (simp add: scanLoop.simps [of d m i])
    then show ?thesis
      using evolves_refl by fastforce
  next
    case True
    let ?w1 = "emit (GetPage i) w"
    have e1: "evolves w ?w1 [GetPage i]"
      by (simp add: evolves_emit)
    have s1: "set [GetPage i] \<subseteq> GetPage ` {i..m}" "length [GetPage i] \<le> Suc m - i"
      using True by auto
    show ?thesis
    proof (cases "getPage d i")
      case (Inl e)
      with True "1.prems" have "w' = ?w1"
        by (simp add: scanLoop.simps [of d m i])
      with e1 s1 show ?thesis
        by blast
    next
      case (Inr pg)
      show ?thesis
      proof (cases "getTextContent pg")
        case (Inl e)
        with True Inr "1.prems" have "w' = ?w1"
          by (simp add: scanLoop.simps [of d m i])
        with e1 s1 show ?thesis
          by blast
      next
        case items: (Inr items)
        with True Inr "1.prems"
        have "scanLoop d m (i + 1) (tot + length (joinItems items)) ?w1 = (r, w')"
          by (simp add: scanLoop.simps [of d m i])
        with "1.IH" [OF True refl Inr items]
        obtain es where es: "evolves ?w1 w' es" "set es \<subseteq> GetPage ` {i + 1..m}"
            "length es \<le> Suc m - (i + 1)"
          by blast
        have "evolves w w' (GetPage i # es)"
          using es(1) by (simp add: evolves_emit_then)
        moreover have "set (GetPage i # es) \<subseteq> GetPage ` {i..m}"
          using es(2) True by auto
        moreover have "length (GetPage i # es) \<le> Suc m - i"
          using es(3) True by simp
        ultimately show ?thesis
          by blast
      qed
    qed
  qed
qed

lemma scanLoop_readable:
  "\<forall>j\<in>{i..m}. textLayer d j \<noteq> None \<Longrightarrow>
     fst (scanLoop d m i tot w) = Inr (tot + (\<Sum>j = i..m. layerLength d j))"
proof (induction d m i tot w rule: scanLoop.induct)
  case (1 d m i tot w)
  show ?case
  proof (cases "i \<le> m")
    case False
    then show ?thesis
      by (simp add: scanLoop.simps [of d m i])
  next
    case True
    with "1.prems" have "textLayer d i \<noteq> None"
      by simp
    then obtain pg items where pg: "getPage d i = Inr pg" and items: "getTextContent pg = Inr items"
      by (auto simp: textLayer_def split: sum.splits)
    have l: "layerLength d i = length (joinItems items)"
      by (simp add: layerLength_def textLayer_def pg items)
    have "\<forall>j\<in>{i + 1..m}. textLayer d j \<noteq> None"
      using "1.prems" by simp
    from "1.IH" [OF True refl pg items this]
    have "fst (scanLoop d m (i + 1) (tot + length (joinItems items)) (emit (GetPage i) w)) =
        Inr (tot + length (joinItems items) + (\<Sum>j = i + 1..m. layerLength d j))" .
    moreover have "(\<Sum>j = i..m. layerLength d j) =
        layerLength d i + (\<Sum>j = i + 1..m. layerLength d j)"
      using True by (simp add: sum.atLeast_Suc_atMost)
    ultimately show ?thesis
      using True by (simp add: scanLoop.simps [of d m i] pg items l)
  qed
qed

lemma scanLoop_unreadable:
  "\<exists>j\<in>{i..m}. textLayer d j = None \<Longrightarrow> \<exists>e. fst (scanLoop d m i tot w) = Inl e"
proof (induction d m i tot w rule: scanLoop.induct)
  case (1 d m i tot w)
  from "1.prems" have True: "i \<le> m"
    by auto
  show ?case
  proof (cases "textLayer d i")
    case None
    then show ?thesis
      using True
      by (auto simp: scanLoop.simps [of d m i] textLayer_def Let_def split: sum.splits)
  next
    case (Some t)
    then obtain pg items where pg: "getPage d i = Inr pg" and items: "getTextContent pg = Inr items"
      by (auto simp: textLayer_def split: sum.splits)
    from "1.prems" obtain j where j: "j \<in> {i..m}" "textLayer d j = None"
      by blast
    with Some have "j \<noteq> i"
      by auto
    with j have "j \<in> {i + 1..m}"
      by simp
    with j(2) have "\<exists>j\<in>{i + 1..m}. textLayer d j = None"
      by blast
    from "1.IH" [OF True refl pg items this] show ?thesis
      using True by (simp add: scanLoop.simps [of d m i] pg items)
  qed
qed


lemma isScannedPDF_try_evolves:
  assumes "isScannedPDF_try en b w = (r, w')"
  shows "\<exists>es. evolves w w' es \<and> (\<forall>i. GetPage i \<in> set es \<longrightarrow>
                 1 \<le> i \<and> i \<le> 3
                 \<and> (case getDocument en b of Inl e \<Rightarrow> False | Inr d \<Rightarrow> i \<le> numPages d))
           \<and> length (filter isGetPage es) \<le> 3"
proof -
  obtain p w1 where l: "loadPdfJs en w = (p, w1)"
    by (cases "loadPdfJs en w")
  let ?pre = "if pdfjsLibPromise w = None then [InjectScript] else []"
  have e1: "evolves w w1 ?pre"
    using loadPdfJs_evolves [OF l] by simp
  have pre: "\<forall>i. GetPage i \<notin> set ?pre" "filter isGetPage ?pre = []"
    by simp_all
  show ?thesis
  proof (cases p)
    case (Rejected e)
    with assms l have "w' = w1"
      by (simp add: isScannedPDF_try_def)
    with e1 pre show ?thesis
      by (metis list.size(3) zero_le)
  next
    case Resolved
    let ?w2 = "emit (GetDocument b) w1"
    have e2: "evolves w ?w2 (?pre @ [GetDocument b])"
      using evolves_trans [OF e1 evolves_emit] by simp
    have pre2: "\<forall>i. GetPage i \<notin> set (?pre @ [GetDocument b])"
      "filter isGetPage (?pre @ [GetDocument b]) = []"
      by simp_all
    show ?thesis
    proof (cases "getDocument en b")
      case (Inl e)
      with assms l Resolved have "w' = ?w2"
        by (simp add: isScannedPDF_try_def)
      with e2 pre2 show ?thesis
        by (metis list.size(3) zero_le)
    next
      case (Inr d)
      obtain x w3 where sl: "scanLoop d (min (numPages d) 3) 1 0 ?w2 = (x, w3)"
        by (cases "scanLoop d (min (numPages d) 3) 1 0 ?w2")
      with assms l Resolved Inr have w': "w' = w3"
        by (auto simp: isScannedPDF_try_def split: sum.splits)
      from scanLoop_evolves [OF sl]
      obtain es where es: "evolves ?w2 w3 es" "set es \<subseteq> GetPage ` {1..min (numPages d) 3}"
          "length es \<le> Suc (min (numPages d) 3) - 1"
        by blast
      have "evolves w w' ((?pre @ [GetDocument b]) @ es)"
        unfolding w' using e2 es(1) by (rule evolves_trans)
      moreover have "\<forall>i. GetPage i \<in> set ((?pre @ [GetDocument b]) @ es) \<longrightarrow>
          1 \<le> i \<and> i \<le> 3
          \<and> (case getDocument en b of Inl e \<Rightarrow> False | Inr d \<Rightarrow> i \<le> numPages d)"
        using es(2) Inr by auto
      moreover have "length (filter isGetPage ((?pre @ [GetDocument b]) @ es)) \<le> 3"
      proof -
        have "length (filter isGetPage es) \<le> length es"
          by (rule length_filter_le)
        also have "\<dots> \<le> 3"
          using es(3) by simp
        finally show ?thesis
          by simp
      qed
      ultimately show ?thesis
        by blast
    qed
  qed
qed

lemma isScannedPDF_try_result:
  "fst (isScannedPDF_try en b w) = Inr True \<longleftrightarrow>
     fst (loadPdfJs en w) = Resolved \<and>
     (case getDocument en b of
        Inl e \<Rightarrow> False
      | Inr d \<Rightarrow> (\<forall>i\<in>{1..min (numPages d) 3}. textLayer d i \<noteq> None)
                 \<and> (\<Sum>i = 1..min (numPages d) 3. layerLength d i) < 50)"
proof -
  obtain p w1 where l: "loadPdfJs en w = (p, w1)"
    by (cases "loadPdfJs en w")
  show ?thesis
  proof (cases p)
    case (Rejected e)
    with l show ?thesis
      by (simp add: isScannedPDF_try_def)
  next
    case Resolved
    show ?thesis
    proof (cases "getDocument en b")
      case (Inl e)
      with l Resolved show ?thesis
        by (simp add: isScannedPDF_try_def)
    next
      case (Inr d)
      let ?m = "min (numPages d) 3"
      let ?w2 = "emit (GetDocument b) w1"
      have unfold: "fst (isScannedPDF_try en b w) =
          (case fst (scanLoop d ?m 1 0 ?w2) of Inl e \<Rightarrow> Inl e | Inr n \<Rightarrow> Inr (n < 50))"
        using l Resolved Inr by (simp add: isScannedPDF_try_def split: prod.splits sum.splits)
      show ?thesis
      proof (cases "\<forall>i\<in>{1..?m}. textLayer d i \<noteq> None")
        case True
        from scanLoop_readable [OF True, of 0 ?w2] show ?thesis
          using l Resolved Inr True by (simp add: unfold)
      next
        case False
        then have "\<exists>j\<in>{1..?m}. textLayer d j = None"
          by simp
        from scanLoop_unreadable [OF this, of 0 ?w2] show ?thesis
          using l Resolved Inr False by (auto simp: unfold)
      qed
    qed
  qed
qed

text \<open>
  C9. \<open>isScannedPDF\<close> always returns a boolean. It requests at most three
  pages, each among pages 1 to 3 and within the document's page count; it returns
  true exactly when the backend is available, the document opens, the text layers
  of its first \<open>min(numPages, 3)\<close> pages can all be read and their lengths sum to
  less than 50; on every failure it returns false.
\<close>

theorem isScannedPDF_samples:
  "\<exists>es. trace (snd (isScannedPDF en b w)) = trace w @ es
      \<and> (\<forall>i. GetPage i \<in> set es \<longrightarrow>
                 1 \<le> i \<and> i \<le> 3
                 \<and> (case getDocument en b of Inl e \<Rightarrow> False | Inr d \<Rightarrow> i \<le> numPages d))
      \<and> length (filter isGetPage es) \<le> 3
      \<and> fst (isScannedPDF en b w) =
          (fst (loadPdfJs en w) = Resolved \<and>
           (case getDocument en b of
              Inl e \<Rightarrow> False
            | Inr d \<Rightarrow> (\<forall>i\<in>{1..min (numPages d) 3}. textLayer d i \<noteq> None)
                       \<and> (\<Sum>i = 1..min (numPages d) 3. layerLength d i) < 50))"
proof -
  obtain r w' where t: "isScannedPDF_try en b w = (r, w')"
    by (cases "isScannedPDF_try en b w")
  have s: "snd (isScannedPDF en b w) = w'" and f: "fst (isScannedPDF en b w) = (r = Inr True)"
    using t by (auto simp: isScannedPDF_def split: sum.splits)
  from isScannedPDF_try_evolves [OF t]
  obtain es where "trace w' = trace w @ es"
      "\<forall>i. GetPage i \<in> set es \<longrightarrow>
         1 \<le> i \<and> i \<le> 3
         \<and> (case getDocument en b of Inl e \<Rightarrow> False | Inr d \<Rightarrow> i \<le> numPages d)"
      "length (filter isGetPage es) \<le> 3"
    unfolding evolves_def by blast
  moreover have "(r = Inr True) = (fst (loadPdfJs en w) = Resolved \<and>
           (case getDocument en b of
              Inl e \<Rightarrow> False
            | Inr d \<Rightarrow> (\<forall>i\<in>{1..min (numPages d) 3}. textLayer d i \<noteq> None)
                       \<and> (\<Sum>i = 1..min (numPages d) 3. layerLength d i) < 50))"
    using isScannedPDF_try_result [of en b w] t by simp
  ultimately show ?thesis
    unfolding s f by blast
qed

lemma interval_1_3: "{1..3::nat} = {1, 2, 3}"
  by auto

theorem isScannedPDF_samples_witness:
  "fst (isScannedPDF pdfEnv [0x25, 0x50, 0x44, 0x46, 0x34] world0)
   \<and> \<not> fst (isScannedPDF pdfEnv [0x25, 0x50, 0x44, 0x46, 0x31] world0)
   \<and> \<not> fst (isScannedPDF failingEnv [0x25, 0x50, 0x44, 0x46, 0x34] world0)"
proof -
  have l: "fst (loadPdfJs pdfEnv world0) = Resolved"
    "fst (loadPdfJs failingEnv world0) \<noteq> Resolved"
    by (simp_all add: loadPdfJs_def world0_def pdfEnv_def failingEnv_def Let_def)
  have d: "getDocument pdfEnv [0x25, 0x50, 0x44, 0x46, 0x34] = Inr fourPagePdf"
    "getDocument pdfEnv [0x25, 0x50, 0x44, 0x46, 0x31] = Inr textPdf"
    by (simp_all add: pdfEnv_def)
  have n: "min (numPages fourPagePdf) 3 = 3" "min (numPages textPdf) 3 = 1"
    by (simp_all add: fourPagePdf_def textPdf_def)
  have t4: "textLayer fourPagePdf 1 = Some (js ''Jane Doe'')"
    "textLayer fourPagePdf 2 = Some (js ''Curriculum'')"
    "textLayer fourPagePdf 3 = Some []"
    by (simp_all add: textLayer_def fourPagePdf_def joinItems_def js_append [symmetric])
  have t1: "textLayer textPdf 1 =
      Some (js ''Jane Doe Software engineer with ten years of experience in compilers'')"
    by (simp add: textLayer_def textPdf_def joinItems_def js_append [symmetric])
  have c4: "(\<forall>i\<in>{1..3}. textLayer fourPagePdf i \<noteq> None)
      \<and> (\<Sum>i = 1..3. layerLength fourPagePdf i) < 50"
    unfolding interval_1_3 by (simp add: t4 layerLength_def del: One_nat_def)
  have c1: "\<not> (\<Sum>i = 1..1. layerLength textPdf i) < 50"
    by (simp add: t1 layerLength_def del: One_nat_def)
  from isScannedPDF_samples [of pdfEnv "[0x25, 0x50, 0x44, 0x46, 0x34]" world0]
  have 1: "fst (isScannedPDF pdfEnv [0x25, 0x50, 0x44, 0x46, 0x34] world0)"
    using l d n c4 by auto
  from isScannedPDF_samples [of pdfEnv "[0x25, 0x50, 0x44, 0x46, 0x31]" world0]
  have 2: "\<not> fst (isScannedPDF pdfEnv [0x25, 0x50, 0x44, 0x46, 0x31] world0)"
    using l d n c1 by auto
  from isScannedPDF_samples [of failingEnv "[0x25, 0x50, 0x44, 0x46, 0x34]" world0]
  have 3: "\<not> fst (isScannedPDF failingEnv [0x25, 0x50, 0x44, 0x46, 0x34] world0)"
    using l by auto
  from 1 2 3 show ?thesis
    by simp
qed

section \<open>The OCR fallback for PDF files\<close>

lemma readable_pdf_fallback:
  assumes pdf: "file_type f = js ''application/pdf''"
    and valid: "success (validateFile f)"
    and buf: "arrayBuffer f = Inr b"
  shows "\<exists>r w' es.
     extractTextFromFile en f w = (Inr r, w') \<and> trace w' = trace w @ es
     \<and> (ProcessScannedPDF \<in> set es \<longleftrightarrow>
          (\<exists>t w1. extractTextFromPDF en b w = (Inr t, w1) \<and> length t < 50))
     \<and> (\<forall>t w1. extractTextFromPDF en b w = (Inr t, w1) \<and> 50 \<le> length t \<longrightarrow>
            r = Success t (js ''PDF text extraction'') (file_name f) (file_size f) (file_type f))
     \<and> (\<forall>t w1 t2 w2. extractTextFromPDF en b w = (Inr t, w1) \<and> length t < 50
            \<and> processScannedPDF en b (file_name f) w1 = (Inr t2, w2) \<and> t2 \<noteq> [] \<longrightarrow>
            r = Success t2 (js ''OCR (scanned PDF)'') (file_name f) (file_size f) (file_type f))
     \<and> (\<forall>t m n s ty. r = Success t m n s ty \<longrightarrow>
            m = (if ProcessScannedPDF \<in> set es then js ''OCR (scanned PDF)''
                 else js ''PDF text extraction''))"
proof -
  obtain x w1 where direct: "extractTextFromPDF en b w = (x, w1)"
    by (cases "extractTextFromPDF en b w")
  from extractTextFromPDF_evolves [OF direct]
  obtain es1 where es1: "evolves w w1 es1" "ProcessScannedPDF \<notin> set es1"
    by blast
  then have tr1: "trace w1 = trace w @ es1"
    by (simp add: evolves_def)
  show ?thesis
  proof (cases x)
    case (Inl e)
    with direct pdf have "extractSwitch en f b w = (Inl e, w1)"
      by (simp add: extractSwitch_pdf)
    with valid buf
    have "extractTextFromFile en f w =
        (Inr (Failure e (file_name f) (file_size f) (file_type f)), w1)"
      by (rule extractTextFromFile_caught)
    with tr1 es1(2) direct Inl show ?thesis
      by simp
  next
    case (Inr t)
    have trimmed: "trim t = t"
      using direct Inr by (simp add: extractTextFromPDF_trimmed)
    show ?thesis
    proof (cases "length t < 50")
      case False
      with direct Inr pdf
      have "extractSwitch en f b w = (Inr (t, js ''PDF text extraction''), w1)"
        by (simp add: extractSwitch_pdf)
      moreover have "trim t \<noteq> []"
        using False trimmed by auto
      ultimately have "extractTextFromFile en f w =
          (Inr (Success t (js ''PDF text extraction'') (file_name f) (file_size f) (file_type f)),
           w1)"
        using valid buf by (simp add: extractTextFromFile_nonblank)
      with tr1 es1(2) direct Inr False show ?thesis
        by simp
    next
      case True
      obtain y w2 where ocr: "processScannedPDF en b (file_name f) w1 = (y, w2)"
        by (cases "processScannedPDF en b (file_name f) w1")
      from processScannedPDF_evolves [OF ocr]
      obtain es2 where "evolves w1 w2 (ProcessScannedPDF # es2)"
        by blast
      then have tr2: "trace w2 = trace w @ (es1 @ ProcessScannedPDF # es2)"
        using tr1 by (simp add: evolves_def)
      have mem: "ProcessScannedPDF \<in> set (es1 @ ProcessScannedPDF # es2)"
        by simp
      show ?thesis
      proof (cases y)
        case (Inl e)
        with direct Inr True ocr pdf have "extractSwitch en f b w = (Inl e, w2)"
          by (simp add: extractSwitch_pdf)
        with valid buf
        have "extractTextFromFile en f w =
            (Inr (Failure e (file_name f) (file_size f) (file_type f)), w2)"
          by (rule extractTextFromFile_caught)
        with tr2 mem direct Inr True ocr Inl show ?thesis
          by (intro exI [of _ "Failure e (file_name f) (file_size f) (file_type f)"]
              exI [of _ w2] exI [of _ "es1 @ ProcessScannedPDF # es2"]) simp
      next
        case t2: (Inr t2)
        have trimmed2: "trim t2 = t2"
          using ocr t2 by (simp add: processScannedPDF_trimmed)
        from direct Inr True ocr t2 pdf
        have sw: "extractSwitch en f b w = (Inr (t2, js ''OCR (scanned PDF)''), w2)"
          by (simp add: extractSwitch_pdf)
        show ?thesis
        proof (cases "t2 = []")
          case empty: True
          with sw valid buf
          have "extractTextFromFile en f w =
            (Inr (Failure (js ''No text content found in the file'')
                    (file_name f) (file_size f) (file_type f)), w2)"
            by (simp add: extractTextFromFile_empty)
          with tr2 mem direct Inr True ocr t2 empty show ?thesis
            by (intro exI [of _ "Failure (js ''No text content found in the file'')
                  (file_name f) (file_size f) (file_type f)"]
                exI [of _ w2] exI [of _ "es1 @ ProcessScannedPDF # es2"]) simp
        next
          case False
          with trimmed2 have "trim t2 \<noteq> []"
            by simp
          with sw valid buf
          have "extractTextFromFile en f w =
            (Inr (Success t2 (js ''OCR (scanned PDF)'')
                    (file_name f) (file_size f) (file_type f)), w2)"
            by (simp add: extractTextFromFile_nonblank)
          with tr2 mem direct Inr True ocr t2 show ?thesis
            by (intro exI [of _ "Success t2 (js ''OCR (scanned PDF)'')
                  (file_name f) (file_size f) (file_type f)"]
                exI [of _ w2] exI [of _ "es1 @ ProcessScannedPDF # es2"]) simp
        qed
      qed
    qed
  qed
qed


text \<open>
  C4. For every PDF file, \<open>processScannedPDF\<close> is entered exactly when the
  direct extraction \<open>extractTextFromPDF\<close> is reached (the file passes validation
  and its buffer is read) and returns a text of fewer than 50 characters. A direct
  text of 50 characters or more is kept and returned with the method
  \<open>PDF text extraction\<close>; when the fallback runs and gives a text, that text is
  returned with the method \<open>OCR (scanned PDF)\<close>; and the method of every success
  object tells which of the two paths was taken. (A failure object has no method.)
\<close>

theorem pdf_ocr_fallback:
  assumes pdf: "file_type f = js ''application/pdf''"
  shows "\<exists>x w' es.
     extractTextFromFile en f w = (x, w') \<and> trace w' = trace w @ es
     \<and> (ProcessScannedPDF \<in> set es \<longleftrightarrow>
          success (validateFile f)
          \<and> (\<exists>b t w1. arrayBuffer f = Inr b \<and> extractTextFromPDF en b w = (Inr t, w1)
                 \<and> length t < 50))
     \<and> (\<forall>b t w1. success (validateFile f) \<and> arrayBuffer f = Inr b
            \<and> extractTextFromPDF en b w = (Inr t, w1) \<and> 50 \<le> length t \<longrightarrow>
            x = Inr (Success t (js ''PDF text extraction'')
                       (file_name f) (file_size f) (file_type f)))
     \<and> (\<forall>b t w1 t2 w2. success (validateFile f) \<and> arrayBuffer f = Inr b
            \<and> extractTextFromPDF en b w = (Inr t, w1) \<and> length t < 50
            \<and> processScannedPDF en b (file_name f) w1 = (Inr t2, w2) \<and> t2 \<noteq> [] \<longrightarrow>
            x = Inr (Success t2 (js ''OCR (scanned PDF)'')
                       (file_name f) (file_size f) (file_type f)))
     \<and> (\<forall>t m n s ty. x = Inr (Success t m n s ty) \<longrightarrow>
            m = (if ProcessScannedPDF \<in> set es then js ''OCR (scanned PDF)''
                 else js ''PDF text extraction''))"
proof (cases "success (validateFile f)")
  case False
  then have "extractTextFromFile en f w = (Inl (message (validateFile f)), w)"
    by (rule extractTextFromFile_invalid)
  with False show ?thesis
    by (intro exI [of _ "Inl (message (validateFile f))"] exI [of _ w] exI [of _ "[]"]) simp
next
  case True
  show ?thesis
  proof (cases "arrayBuffer f")
    case (Inl e)
    with True have "extractTextFromFile en f w = (Inl e, w)"
      by (rule extractTextFromFile_unreadable)
    with Inl show ?thesis
      by (intro exI [of _ "Inl e"] exI [of _ w] exI [of _ "[]"]) simp
  next
    case (Inr b)
    from readable_pdf_fallback [OF pdf True Inr, of en w]
    obtain r w' es where
      "extractTextFromFile en f w = (Inr r, w')" "trace w' = trace w @ es"
      "ProcessScannedPDF \<in> set es \<longleftrightarrow>
          (\<exists>t w1. extractTextFromPDF en b w = (Inr t, w1) \<and> length t < 50)"
      "\<forall>t w1. extractTextFromPDF en b w = (Inr t, w1) \<and> 50 \<le> length t \<longrightarrow>
            r = Success t (js ''PDF text extraction'') (file_name f) (file_size f) (file_type f)"
      "\<forall>t w1 t2 w2. extractTextFromPDF en b w = (Inr t, w1) \<and> length t < 50
            \<and> processScannedPDF en b (file_name f) w1 = (Inr t2, w2) \<and> t2 \<noteq> [] \<longrightarrow>
            r = Success t2 (js ''OCR (scanned PDF)'') (file_name f) (file_size f) (file_type f)"
      "\<forall>t m n s ty. r = Success t m n s ty \<longrightarrow>
            m = (if ProcessScannedPDF \<in> set es then js ''OCR (scanned PDF)''
                 else js ''PDF text extraction'')"
      by blast
    with True Inr show ?thesis
      by (intro exI [of _ "Inr r"] exI [of _ w'] exI [of _ es]) simp
  qed
qed

lemma textPdf_direct:
  "extractTextFromPDF pdfEnv [0x25, 0x50, 0x44, 0x46, 0x31] world0 =
     (Inr (js ''Jane Doe Software engineer with ten years of experience in compilers''),
      \<lparr>pdfjsLibPromise = Some Resolved,
       trace = [InjectScript, GetDocument [0x25, 0x50, 0x44, 0x46, 0x31], GetPage 1]\<rparr>)"
proof -
  have t: "trim (js ''Jane Doe'' @ js '' '' @
        js ''Software engineer with ten years of experience in compilers'' @ js [CHR 0x0A]) =
      js ''Jane Doe Software engineer with ten years of experience in compilers''"
    by (simp add: trim_def js_def isWhiteSpace_def)
  show ?thesis
    by (simp add: extractTextFromPDF_def extractTextFromPDF_try_def loadPdfJs_def world0_def
        pdfEnv_def emit_def Let_def textPdf_def textLoop.simps joinItems_def t)
qed

lemma scannedPdf_direct:
  "extractTextFromPDF pdfEnv [0x25, 0x50, 0x44, 0x46, 0x30] world0 =
     (Inr [],
      \<lparr>pdfjsLibPromise = Some Resolved,
       trace = [InjectScript, GetDocument [0x25, 0x50, 0x44, 0x46, 0x30], GetPage 1]\<rparr>)"
proof -
  have t: "trim (js [CHR 0x0A]) = []"
    by (simp add: trim_def js_def isWhiteSpace_def)
  show ?thesis
    by (simp add: extractTextFromPDF_def extractTextFromPDF_try_def loadPdfJs_def world0_def
        pdfEnv_def emit_def Let_def scannedPdf_def textLoop.simps joinItems_def t)
qed

lemma scannedPdf_ocr:
  "fst (processScannedPDF pdfEnv [0x25, 0x50, 0x44, 0x46, 0x30] (js ''scan.pdf'')
     \<lparr>pdfjsLibPromise = Some Resolved,
      trace = [InjectScript, GetDocument [0x25, 0x50, 0x44, 0x46, 0x30], GetPage 1]\<rparr>) =
   Inr (js ''Jane Doe'')"
proof -
  have t: "trim (js ''Jane Doe '' @ [0x0A]) = js ''Jane Doe''"
    "trim (js ''Jane Doe'' @ js [CHR 0x0A, CHR 0x0A]) = js ''Jane Doe''"
    by (simp_all add: trim_def js_def isWhiteSpace_def)
  show ?thesis
    by (simp add: processScannedPDF_def processScannedPDF_try_def loadPdfJs_def
        pdfEnv_def emit_def Let_def scannedPdf_def ocrLoop.simps extractTextFromImage_def t)
qed


theorem pdf_ocr_fallback_witness:
  "fst (extractTextFromFile pdfEnv textPdfFile world0) =
     Inr (Success (js ''Jane Doe Software engineer with ten years of experience in compilers'')
            (js ''PDF text extraction'') (js ''cv.pdf'') 5 (js ''application/pdf''))
   \<and> fst (extractTextFromFile pdfEnv scannedPdfFile world0) =
     Inr (Success (js ''Jane Doe'') (js ''OCR (scanned PDF)'')
            (js ''scan.pdf'') 5 (js ''application/pdf''))"
proof -
  have f1: "file_type textPdfFile = js ''application/pdf''" "file_name textPdfFile = js ''cv.pdf''"
    "file_size textPdfFile = 5" "arrayBuffer textPdfFile = Inr [0x25, 0x50, 0x44, 0x46, 0x31]"
    by (simp_all add: textPdfFile_def)
  have f2: "file_type scannedPdfFile = js ''application/pdf''"
    "file_name scannedPdfFile = js ''scan.pdf''" "file_size scannedPdfFile = 5"
    "arrayBuffer scannedPdfFile = Inr [0x25, 0x50, 0x44, 0x46, 0x30]"
    by (simp_all add: scannedPdfFile_def)
  have v: "success (validateFile textPdfFile)" "success (validateFile scannedPdfFile)"
    by (simp_all add: validateFile_def f1 f2 MAX_FILE_SIZE_def lookupSupported_def
        SUPPORTED_FILE_TYPES_def)
  have long: "50 \<le> length (js ''Jane Doe Software engineer with ten years of experience in compilers'')"
    by simp
  obtain w2 where ocr:
    "processScannedPDF pdfEnv [0x25, 0x50, 0x44, 0x46, 0x30] (js ''scan.pdf'')
       \<lparr>pdfjsLibPromise = Some Resolved,
        trace = [InjectScript, GetDocument [0x25, 0x50, 0x44, 0x46, 0x30], GetPage 1]\<rparr> =
     (Inr (js ''Jane Doe''), w2)"
    using scannedPdf_ocr by (metis prod.collapse)
  from pdf_ocr_fallback [OF f1(1), of pdfEnv world0]
  obtain x w' where x: "extractTextFromFile pdfEnv textPdfFile world0 = (x, w')"
    and xx: "\<forall>b t w1. success (validateFile textPdfFile) \<and> arrayBuffer textPdfFile = Inr b
            \<and> extractTextFromPDF pdfEnv b world0 = (Inr t, w1) \<and> 50 \<le> length t \<longrightarrow>
            x = Inr (Success t (js ''PDF text extraction'')
                       (file_name textPdfFile) (file_size textPdfFile) (file_type textPdfFile))"
    by blast
  from xx v(1) f1(4) textPdf_direct long
  have "x = Inr (Success (js ''Jane Doe Software engineer with ten years of experience in compilers'')
            (js ''PDF text extraction'') (file_name textPdfFile) (file_size textPdfFile)
            (file_type textPdfFile))"
    by blast
  with x have 1: "fst (extractTextFromFile pdfEnv textPdfFile world0) =
     Inr (Success (js ''Jane Doe Software engineer with ten years of experience in compilers'')
            (js ''PDF text extraction'') (file_name textPdfFile) (file_size textPdfFile)
            (file_type textPdfFile))"
    by simp
  have short: "length ([] :: jsstring) < 50" "js ''Jane Doe'' \<noteq> []"
    by simp_all
  from pdf_ocr_fallback [OF f2(1), of pdfEnv world0]
  obtain y w'' where y: "extractTextFromFile pdfEnv scannedPdfFile world0 = (y, w'')"
    and yy: "\<forall>b t w1 t2 w2. success (validateFile scannedPdfFile)
            \<and> arrayBuffer scannedPdfFile = Inr b
            \<and> extractTextFromPDF pdfEnv b world0 = (Inr t, w1) \<and> length t < 50
            \<and> processScannedPDF pdfEnv b (file_name scannedPdfFile) w1 = (Inr t2, w2)
            \<and> t2 \<noteq> [] \<longrightarrow>
            y = Inr (Success t2 (js ''OCR (scanned PDF)'') (file_name scannedPdfFile)
                       (file_size scannedPdfFile) (file_type scannedPdfFile))"
    by blast
  from yy v(2) f2(4) scannedPdf_direct ocr short
  have "y = Inr (Success (js ''Jane Doe'') (js ''OCR (scanned PDF)'') (file_name scannedPdfFile)
                  (file_size scannedPdfFile) (file_type scannedPdfFile))"
    unfolding f2(2) by blast
  with y have 2: "fst (extractTextFromFile pdfEnv scannedPdfFile world0) =
     Inr (Success (js ''Jane Doe'') (js ''OCR (scanned PDF)'') (file_name scannedPdfFile)
                  (file_size scannedPdfFile) (file_type scannedPdfFile))"
    by simp
  from 1 2 show ?thesis
    by (simp only: f1 f2 simp_thms)
qed

section \<open>The cached PDF backend\<close>

lemma evolves_keeps: "pdfjsLibPromise w = Some p \<Longrightarrow> evolves w w' es \<Longrightarrow> keeps p w w'"
  by (auto simp: evolves_def keeps_def)

lemma isScannedPDF_evolves:
  "isScannedPDF en b w = (r, w') \<Longrightarrow> \<exists>es. evolves w w' es"
proof -
  assume a: "isScannedPDF en b w = (r, w')"
  obtain x where "isScannedPDF_try en b w = (x, w')"
    using a by (auto simp: isScannedPDF_def split: prod.splits sum.splits)
  from isScannedPDF_try_evolves [OF this] show ?thesis
    by blast
qed

lemma extractSwitch_evolves:
  assumes "extractSwitch en f b w = (r, w')"
  shows "\<exists>es. evolves w w' es"
proof -
  consider (plain) "file_type f = js ''text/plain''"
    | (pdf) "file_type f = js ''application/pdf''"
    | (doc) "file_type f \<noteq> js ''text/plain''" "file_type f \<noteq> js ''application/pdf''"
        "file_type f = js ''application/vnd.openxmlformats-officedocument.wordprocessingml.document''
          \<or> file_type f = js ''application/msword''"
    | (img) "file_type f \<noteq> js ''text/plain''" "file_type f \<noteq> js ''application/pdf''"
        "\<not> (file_type f = js ''application/vnd.openxmlformats-officedocument.wordprocessingml.document''
          \<or> file_type f = js ''application/msword'')"
        "file_type f = js ''image/png'' \<or> file_type f = js ''image/jpeg''
          \<or> file_type f = js ''image/jpg''"
    | (other) "file_type f \<noteq> js ''text/plain''" "file_type f \<noteq> js ''application/pdf''"
        "\<not> (file_type f = js ''application/vnd.openxmlformats-officedocument.wordprocessingml.document''
          \<or> file_type f = js ''application/msword'')"
        "\<not> (file_type f = js ''image/png'' \<or> file_type f = js ''image/jpeg''
          \<or> file_type f = js ''image/jpg'')"
    by blast
  then show ?thesis
  proof cases
    case plain
    with assms have "w' = w"
      by (auto simp: extractSwitch_def split: option.splits)
    then show ?thesis
      using evolves_refl by blast
  next
    case pdf
    obtain x w1 where direct: "extractTextFromPDF en b w = (x, w1)"
      by (cases "extractTextFromPDF en b w")
    from extractTextFromPDF_evolves [OF direct] obtain es1 where es1: "evolves w w1 es1"
      by blast
    obtain y w2 where ocr: "processScannedPDF en b (file_name f) w1 = (y, w2)"
      by (cases "processScannedPDF en b (file_name f) w1")
    from processScannedPDF_evolves [OF ocr] obtain es2
      where "evolves w1 w2 (ProcessScannedPDF # es2)"
      by blast
    with es1 have es2: "evolves w w2 (es1 @ ProcessScannedPDF # es2)"
      by (rule evolves_trans)
    from assms pdf direct ocr have "w' = w1 \<or> w' = w2"
      by (auto simp: extractSwitch_pdf split: sum.splits if_splits)
    with es1 es2 show ?thesis
      by blast
  next
    case doc
    with assms obtain x where "extractTextFromDocx en b w = (x, w')"
      by (auto simp: extractSwitch_def split: prod.splits sum.splits)
    then show ?thesis
      using extractTextFromDocx_evolves by blast
  next
    case img
    with assms obtain x where "extractTextFromImage en b (file_name f) w = (x, w')"
      by (auto simp: extractSwitch_def split: prod.splits sum.splits)
    then show ?thesis
      using extractTextFromImage_evolves by blast
  next
    case other
    with assms have "w' = w"
      by (simp add: extractSwitch_def)
    then show ?thesis
      using evolves_refl by blast
  qed
qed

lemma extractTextFromFile_evolves:
  assumes "extractTextFromFile en f w = (r, w')"
  shows "\<exists>es. evolves w w' es"
proof (cases "success (validateFile f)")
  case False
  with assms have "w' = w"
    by (simp add: extractTextFromFile_invalid)
  then show ?thesis
    using evolves_refl by blast
next
  case True
  show ?thesis
  proof (cases "arrayBuffer f")
    case (Inl e)
    with True assms have "w' = w"
      by (simp add: extractTextFromFile_unreadable)
    then show ?thesis
      using evolves_refl by blast
  next
    case (Inr b)
    obtain x w1 where sw: "extractSwitch en f b w = (x, w1)"
      by (cases "extractSwitch en f b w")
    with True Inr assms have "w' = w1"
      by (auto simp: extractTextFromFile_def split: sum.splits prod.splits if_splits)
    with extractSwitch_evolves [OF sw] show ?thesis
      by blast
  qed
qed

lemma processLoop_evolves:
  "processLoop en fs results w = (r, w') \<Longrightarrow> \<exists>es. evolves w w' es"
proof (induction fs arbitrary: results w)
  case Nil
  then have "w' = w"
    by simp
  then show ?case
    using evolves_refl by blast
next
  case (Cons f fs)
  obtain x w1 where one: "extractTextFromFile en f w = (x, w1)"
    by (cases "extractTextFromFile en f w")
  from extractTextFromFile_evolves [OF one] obtain es1 where es1: "evolves w w1 es1"
    by blast
  show ?case
  proof (cases x)
    case (Inl e)
    with Cons.prems one have "w' = w1"
      by simp
    with es1 show ?thesis
      by blast
  next
    case (Inr result)
    with Cons.prems one have "processLoop en fs (results @ [result]) w1 = (r, w')"
      by simp
    from Cons.IH [OF this] obtain es2 where "evolves w1 w' es2"
      by blast
    with es1 have "evolves w w' (es1 @ es2)"
      by (rule evolves_trans)
    then show ?thesis
      by blast
  qed
qed

lemma processMultipleFiles_evolves:
  assumes "processMultipleFiles en fs w = (r, w')"
  shows "\<exists>es. evolves w w' es"
proof (cases "batch_success (validateMultipleFiles fs)")
  case False
  with assms have "w' = w"
    by (simp add: processMultipleFiles_def)
  then show ?thesis
    using evolves_refl by blast
next
  case True
  with assms have "processLoop en (validFiles (validateMultipleFiles fs)) [] w = (r, w')"
    by (simp add: processMultipleFiles_def)
  then show ?thesis
    by (rule processLoop_evolves)
qed


lemma rejected_extractTextFromPDF:
  "pdfjsLibPromise w = Some (Rejected e) \<Longrightarrow>
     extractTextFromPDF en b w = (Inl (js ''Failed to extract text from PDF: '' @ e), w)"
  by (simp add: extractTextFromPDF_def extractTextFromPDF_try_def loadPdfJs_cached)

lemma rejected_isScannedPDF:
  "pdfjsLibPromise w = Some (Rejected e) \<Longrightarrow> isScannedPDF en b w = (False, w)"
  by (simp add: isScannedPDF_def isScannedPDF_try_def loadPdfJs_cached)

lemma rejected_processScannedPDF:
  "pdfjsLibPromise w = Some (Rejected e) \<Longrightarrow>
     processScannedPDF en b n w =
       (Inl (js ''Failed to process scanned PDF: '' @ e), emit ProcessScannedPDF w)"
  by (simp add: processScannedPDF_def processScannedPDF_try_def loadPdfJs_cached emit_def)

lemma first_load_fails:
  "pdfjsLibPromise w = None \<Longrightarrow> \<not> scriptLoads en \<Longrightarrow>
     pdfjsLibPromise (snd (extractTextFromPDF en b w)) =
       Some (Rejected (js ''Failed to load PDF.js library from CDN.''))"
  by (simp add: extractTextFromPDF_def extractTextFromPDF_try_def loadPdfJs_first emit_def)

text \<open>
  C10. \<open>loadPdfJs\<close> creates the promise only while the variable is \<open>null\<close>,
  caches it whatever its outcome, and afterwards returns the cached promise without
  touching the state. Once a promise is cached, every operation of the module keeps
  it and injects no script again. With a rejected promise cached,
  \<open>extractTextFromPDF\<close> and \<open>processScannedPDF\<close> throw their wrapped error and
  \<open>isScannedPDF\<close> gives its default \<open>false\<close>, in whatever outside they run; so
  after a first extraction whose script failed to load, the next extraction fails
  with the same cause.
\<close>

theorem pdfjsLibPromise_cached_once:
  "(pdfjsLibPromise w = None \<longrightarrow>
      loadPdfJs en w =
        ((if scriptLoads en then Resolved
          else Rejected (js ''Failed to load PDF.js library from CDN.'')),
         emit InjectScript
           (w\<lparr>pdfjsLibPromise :=
                Some (if scriptLoads en then Resolved
                      else Rejected (js ''Failed to load PDF.js library from CDN.''))\<rparr>)))
   \<and> (pdfjsLibPromise w = Some p \<longrightarrow>
        loadPdfJs en w = (p, w)
        \<and> keeps p w (snd (isScannedPDF en b w))
        \<and> keeps p w (snd (extractTextFromPDF en b w))
        \<and> keeps p w (snd (processScannedPDF en b n w))
        \<and> keeps p w (snd (extractTextFromFile en f w))
        \<and> keeps p w (snd (processMultipleFiles en fs w)))
   \<and> (pdfjsLibPromise w = Some (Rejected e) \<longrightarrow>
        extractTextFromPDF en b w = (Inl (js ''Failed to extract text from PDF: '' @ e), w)
        \<and> isScannedPDF en b w = (False, w)
        \<and> processScannedPDF en b n w =
            (Inl (js ''Failed to process scanned PDF: '' @ e), emit ProcessScannedPDF w))
   \<and> (pdfjsLibPromise w = None \<and> \<not> scriptLoads en \<longrightarrow>
        extractTextFromPDF en' b' (snd (extractTextFromPDF en b w)) =
          (Inl (js ''Failed to extract text from PDF: '' @
                js ''Failed to load PDF.js library from CDN.''),
           snd (extractTextFromPDF en b w)))"
proof (intro conjI impI)
  assume "pdfjsLibPromise w = None"
  then show "loadPdfJs en w =
        ((if scriptLoads en then Resolved
          else Rejected (js ''Failed to load PDF.js library from CDN.'')),
         emit InjectScript
           (w\<lparr>pdfjsLibPromise :=
                Some (if scriptLoads en then Resolved
                      else Rejected (js ''Failed to load PDF.js library from CDN.''))\<rparr>))"
    by (rule loadPdfJs_first)
next
  assume p: "pdfjsLibPromise w = Some p"
  then show "loadPdfJs en w = (p, w)"
    by (rule loadPdfJs_cached)
  show "keeps p w (snd (isScannedPDF en b w))"
    using isScannedPDF_evolves [OF prod.collapse [symmetric]] evolves_keeps [OF p] by blast
  show "keeps p w (snd (extractTextFromPDF en b w))"
    using extractTextFromPDF_evolves [OF prod.collapse [symmetric]] evolves_keeps [OF p] by blast
  show "keeps p w (snd (processScannedPDF en b n w))"
    using processScannedPDF_evolves [OF prod.collapse [symmetric]] evolves_keeps [OF p] by blast
  show "keeps p w (snd (extractTextFromFile en f w))"
    using extractTextFromFile_evolves [OF prod.collapse [symmetric]] evolves_keeps [OF p] by blast
  show "keeps p w (snd (processMultipleFiles en fs w))"
    using processMultipleFiles_evolves [OF prod.collapse [symmetric]] evolves_keeps [OF p] by blast
next
  assume r: "pdfjsLibPromise w = Some (Rejected e)"
  then show "extractTextFromPDF en b w = (Inl (js ''Failed to extract text from PDF: '' @ e), w)"
    by (rule rejected_extractTextFromPDF)
  from r show "isScannedPDF en b w = (False, w)"
    by (rule rejected_isScannedPDF)
  from r show "processScannedPDF en b n w =
            (Inl (js ''Failed to process scanned PDF: '' @ e), emit ProcessScannedPDF w)"
    by (rule rejected_processScannedPDF)
next
  assume "pdfjsLibPromise w = None \<and> \<not> scriptLoads en"
  then have "pdfjsLibPromise (snd (extractTextFromPDF en b w)) =
       Some (Rejected (js ''Failed to load PDF.js library from CDN.''))"
    by (simp add: first_load_fails)
  then show "extractTextFromPDF en' b' (snd (extractTextFromPDF en b w)) =
          (Inl (js ''Failed to extract text from PDF: '' @
                js ''Failed to load PDF.js library from CDN.''),
           snd (extractTextFromPDF en b w))"
    by (rule rejected_extractTextFromPDF)
qed


theorem pdfjsLibPromise_cached_once_witness:
  "loadPdfJs failingEnv world0 =
     (Rejected (js ''Failed to load PDF.js library from CDN.''), rejectedWorld)
   \<and> loadPdfJs pdfEnv rejectedWorld =
     (Rejected (js ''Failed to load PDF.js library from CDN.''), rejectedWorld)
   \<and> extractTextFromPDF pdfEnv [0x25, 0x50, 0x44, 0x46, 0x31] rejectedWorld =
     (Inl (js ''Failed to extract text from PDF: Failed to load PDF.js library from CDN.''),
      rejectedWorld)
   \<and> isScannedPDF pdfEnv [0x25, 0x50, 0x44, 0x46, 0x31] rejectedWorld = (False, rejectedWorld)
   \<and> keeps (Rejected (js ''Failed to load PDF.js library from CDN.'')) rejectedWorld
        (snd (processMultipleFiles pdfEnv [textPdfFile] rejectedWorld))"
proof -
  let ?e = "js ''Failed to load PDF.js library from CDN.''"
  have n: "pdfjsLibPromise world0 = None" "\<not> scriptLoads failingEnv"
    by (simp_all add: world0_def failingEnv_def)
  have r: "pdfjsLibPromise rejectedWorld = Some (Rejected ?e)"
    by (simp add: rejectedWorld_def)
  have w: "emit InjectScript (world0\<lparr>pdfjsLibPromise := Some (Rejected ?e)\<rparr>) = rejectedWorld"
    by (simp add: emit_def world0_def rejectedWorld_def)
  have m: "js ''Failed to extract text from PDF: '' @ ?e =
      js ''Failed to extract text from PDF: Failed to load PDF.js library from CDN.''"
    by (simp add: js_append [symmetric])
  note a = pdfjsLibPromise_cached_once [where w = world0 and en = failingEnv]
  note b = pdfjsLibPromise_cached_once [where w = rejectedWorld and en = pdfEnv
      and p = "Rejected ?e" and e = ?e and b = "[0x25, 0x50, 0x44, 0x46, 0x31]"
      and fs = "[textPdfFile]"]
  from a n have 1: "loadPdfJs failingEnv world0 = (Rejected ?e, rejectedWorld)"
    by (simp add: w)
  from b r have 2: "loadPdfJs pdfEnv rejectedWorld = (Rejected ?e, rejectedWorld)"
    by blast
  from b r have 3: "extractTextFromPDF pdfEnv [0x25, 0x50, 0x44, 0x46, 0x31] rejectedWorld =
     (Inl (js ''Failed to extract text from PDF: '' @ ?e), rejectedWorld)"
    by blast
  from b r have 4: "isScannedPDF pdfEnv [0x25, 0x50, 0x44, 0x46, 0x31] rejectedWorld =
     (False, rejectedWorld)"
    by blast
  from b r have 5: "keeps (Rejected ?e) rejectedWorld
        (snd (processMultipleFiles pdfEnv [textPdfFile] rejectedWorld))"
    by blast
  from 1 2 3 4 5 show ?thesis
    unfolding m by blast
qed

section \<open>A batch of files\<close>

lemma validateLoop_eq:
  "validateLoop fs valid errs =
     (valid @ filter (\<lambda>f. success (validateFile f)) fs,
      errs @ map (\<lambda>f. file_name f @ js '': '' @ message (validateFile f))
               (filter (\<lambda>f. \<not> success (validateFile f)) fs))"
  by (induction fs arbitrary: valid errs) (simp_all add: Let_def)

lemma batch_success_iff:
  "batch_success (validateMultipleFiles fs) \<longleftrightarrow>
     length fs \<le> MAX_FILES \<and> (\<forall>f\<in>set fs. success (validateFile f))"
  by (auto simp: validateMultipleFiles_def validateLoop_eq filter_empty_conv)

lemma validFiles_all:
  "batch_success (validateMultipleFiles fs) \<Longrightarrow> validFiles (validateMultipleFiles fs) = fs"
  by (auto simp: validateMultipleFiles_def validateLoop_eq filter_empty_conv filter_id_conv
      split: if_splits)

lemma processMultipleFiles_rejected:
  "\<not> batch_success (validateMultipleFiles fs) \<Longrightarrow>
     processMultipleFiles en fs w =
       (Inl (js ''File validation failed: '' @
             join (js '', '') (errors (validateMultipleFiles fs))), w)"
  by (simp add: processMultipleFiles_def)

lemma processLoop_readable:
  assumes "\<forall>f\<in>set fs. success (validateFile f) \<and> (\<exists>b. arrayBuffer f = Inr b)"
  shows "\<exists>rs w'. processLoop en fs results w = (Inr (results @ rs), w')
           \<and> map res_fileName rs = map file_name fs
           \<and> map res_fileSize rs = map file_size fs
           \<and> map res_fileType rs = map file_type fs"
  using assms
proof (induction fs arbitrary: results w)
  case Nil
  then show ?case
    by simp
next
  case (Cons f fs)
  then obtain b where v: "success (validateFile f)" and b: "arrayBuffer f = Inr b"
    by auto
  have "success (validateFile f) \<and> arrayBuffer f = Inr b \<longrightarrow>
        (\<exists>r w'. extractTextFromFile en f w = (Inr r, w')
           \<and> res_fileName r = file_name f \<and> res_fileSize r = file_size f
           \<and> res_fileType r = file_type f)"
    by (cases "extractSwitch en f b w")
      (auto simp: extractTextFromFile_def split: sum.splits prod.splits)
  with v b obtain r w1 where r: "extractTextFromFile en f w = (Inr r, w1)"
    "res_fileName r = file_name f" "res_fileSize r = file_size f" "res_fileType r = file_type f"
    by blast
  from Cons.prems have "\<forall>f\<in>set fs. success (validateFile f) \<and> (\<exists>b. arrayBuffer f = Inr b)"
    by simp
  from Cons.IH [OF this, of "results @ [r]" w1]
  obtain rs w' where rs: "processLoop en fs (results @ [r]) w1 = (Inr ((results @ [r]) @ rs), w')"
    "map res_fileName rs = map file_name fs" "map res_fileSize rs = map file_size fs"
    "map res_fileType rs = map file_type fs"
    by blast
  from r rs have "processLoop en (f # fs) results w = (Inr (results @ (r # rs)), w')
      \<and> map res_fileName (r # rs) = map file_name (f # fs)
      \<and> map res_fileSize (r # rs) = map file_size (f # fs)
      \<and> map res_fileType (r # rs) = map file_type (f # fs)"
    by simp
  then show ?case
    by blast
qed

text \<open>
  C1 (amended). \<open>processMultipleFiles\<close> fails as a whole whenever
  \<open>validateMultipleFiles\<close> reports a rejection, that is when the batch has more than
  \<open>MAX_FILES\<close> files or when any one file fails \<open>validateFile\<close>; it then throws
  the list of rejections and processes no file. A batch without rejection, all of
  whose buffers are read, does not raise: it returns one result for each file, in
  the order of the files.
\<close>

theorem processMultipleFiles_whole_failure:
  "(batch_success (validateMultipleFiles fs) \<longleftrightarrow>
      length fs \<le> MAX_FILES \<and> (\<forall>f\<in>set fs. success (validateFile f)))
   \<and> (\<not> batch_success (validateMultipleFiles fs) \<longrightarrow>
        processMultipleFiles en fs w =
          (Inl (js ''File validation failed: '' @
                join (js '', '') (errors (validateMultipleFiles fs))), w))
   \<and> (batch_success (validateMultipleFiles fs) \<and> (\<forall>f\<in>set fs. \<exists>b. arrayBuffer f = Inr b) \<longrightarrow>
        (\<exists>rs w'. processMultipleFiles en fs w = (Inr rs, w') \<and> length rs = length fs
           \<and> map res_fileName rs = map file_name fs
           \<and> map res_fileSize rs = map file_size fs
           \<and> map res_fileType rs = map file_type fs))"
proof (intro conjI impI)
  show "batch_success (validateMultipleFiles fs) \<longleftrightarrow>
      length fs \<le> MAX_FILES \<and> (\<forall>f\<in>set fs. success (validateFile f))"
    by (rule batch_success_iff)
next
  assume "\<not> batch_success (validateMultipleFiles fs)"
  then show "processMultipleFiles en fs w =
          (Inl (js ''File validation failed: '' @
                join (js '', '') (errors (validateMultipleFiles fs))), w)"
    by (rule processMultipleFiles_rejected)
next
  assume a: "batch_success (validateMultipleFiles fs) \<and> (\<forall>f\<in>set fs. \<exists>b. arrayBuffer f = Inr b)"
  then have "\<forall>f\<in>set fs. success (validateFile f) \<and> (\<exists>b. arrayBuffer f = Inr b)"
    by (simp add: batch_success_iff)
  from processLoop_readable [OF this, of en "[]" w]
  obtain rs w' where rs: "processLoop en fs [] w = (Inr rs, w')"
    "map res_fileName rs = map file_name fs" "map res_fileSize rs = map file_size fs"
    "map res_fileType rs = map file_type fs"
    by auto
  from rs(2) have "length rs = length fs"
    by (rule map_eq_imp_length_eq)
  moreover from a rs(1) have "processMultipleFiles en fs w = (Inr rs, w')"
    by (simp add: processMultipleFiles_def validFiles_all)
  ultimately show "\<exists>rs w'. processMultipleFiles en fs w = (Inr rs, w') \<and> length rs = length fs
           \<and> map res_fileName rs = map file_name fs
           \<and> map res_fileSize rs = map file_size fs
           \<and> map res_fileType rs = map file_type fs"
    using rs by blast
qed


lemma valid_examples:
  "success (validateFile paddedTextFile)" "success (validateFile pngFile)"
  "success (validateFile unreadableFile)" "\<not> success (validateFile bigPdf)"
  by (simp_all add: validateFile_def paddedTextFile_def pngFile_def unreadableFile_def bigPdf_def
      MAX_FILE_SIZE_def lookupSupported_def SUPPORTED_FILE_TYPES_def js_inject)

lemma bigPdf_message:
  "message (validateFile bigPdf) = js ''File size exceeds 10MB limit. Current size: 11.00MB''"
proof -
  have "toFixed2MB 11534336 = js ''11.00''"
    by (simp add: toFixed2MB_def js_def toStringNat.simps digit_def)
  then show ?thesis
    by (simp add: validateFile_def bigPdf_def MAX_FILE_SIZE_def js_append [symmetric])
qed

lemma mixed_batch_errors:
  "errors (validateMultipleFiles [paddedTextFile, bigPdf]) =
     [js ''scan.pdf: File size exceeds 10MB limit. Current size: 11.00MB'']"
proof -
  have "file_name bigPdf = js ''scan.pdf''"
    by (simp add: bigPdf_def)
  then show ?thesis
    by (simp add: validateMultipleFiles_def MAX_FILES_def validateLoop_eq valid_examples
        bigPdf_message js_append [symmetric])
qed

text \<open>
  The claim as stated fails: a batch of two files, within the maximum count, whose
  second file is oversize is not processed at all; the call throws.
\<close>

theorem processMultipleFiles_whole_failure_counterexample:
  "length [paddedTextFile, bigPdf] \<le> MAX_FILES
   \<and> processMultipleFiles failingEnv [paddedTextFile, bigPdf] world0 =
       (Inl (js (''File validation failed: '' @
                 ''scan.pdf: File size exceeds 10MB limit. Current size: 11.00MB'')), world0)"
proof -
  have "\<not> batch_success (validateMultipleFiles [paddedTextFile, bigPdf])"
    by (simp add: batch_success_iff valid_examples)
  then show ?thesis
    by (simp add: processMultipleFiles_rejected mixed_batch_errors MAX_FILES_def
        js_append [symmetric])
qed

theorem processMultipleFiles_whole_failure_witness:
  "processMultipleFiles failingEnv [paddedTextFile, bigPdf] world0 =
       (Inl (js (''File validation failed: '' @
                 ''scan.pdf: File size exceeds 10MB limit. Current size: 11.00MB'')), world0)
   \<and> (\<exists>rs w'. processMultipleFiles ocrEnv [paddedTextFile, pngFile] world0 = (Inr rs, w')
         \<and> length rs = 2 \<and> map res_fileName rs = [js ''cv.txt'', js ''cv.png''])"
proof -
  note a = processMultipleFiles_whole_failure [where fs = "[paddedTextFile, bigPdf]"
      and en = failingEnv and w = world0]
  note b = processMultipleFiles_whole_failure [where fs = "[paddedTextFile, pngFile]"
      and en = ocrEnv and w = world0]
  have "\<not> (length [paddedTextFile, bigPdf] \<le> MAX_FILES
      \<and> (\<forall>f\<in>set [paddedTextFile, bigPdf]. success (validateFile f)))"
    by (simp add: valid_examples)
  with a have "processMultipleFiles failingEnv [paddedTextFile, bigPdf] world0 =
          (Inl (js ''File validation failed: '' @
                join (js '', '') (errors (validateMultipleFiles [paddedTextFile, bigPdf]))), world0)"
    by blast
  then have 1: "processMultipleFiles failingEnv [paddedTextFile, bigPdf] world0 =
       (Inl (js (''File validation failed: '' @
                 ''scan.pdf: File size exceeds 10MB limit. Current size: 11.00MB'')), world0)"
    by (simp add: mixed_batch_errors js_append [symmetric])
  have "length [paddedTextFile, pngFile] \<le> MAX_FILES
      \<and> (\<forall>f\<in>set [paddedTextFile, pngFile]. success (validateFile f))"
    by (simp add: valid_examples MAX_FILES_def)
  moreover have "\<forall>f\<in>set [paddedTextFile, pngFile]. \<exists>b. arrayBuffer f = Inr b"
    by (simp add: paddedTextFile_def pngFile_def)
  ultimately have "\<exists>rs w'. processMultipleFiles ocrEnv [paddedTextFile, pngFile] world0 = (Inr rs, w')
         \<and> length rs = length [paddedTextFile, pngFile]
         \<and> map res_fileName rs = map file_name [paddedTextFile, pngFile]"
    using b by blast
  moreover have "length [paddedTextFile, pngFile] = 2"
    "map file_name [paddedTextFile, pngFile] = [js ''cv.txt'', js ''cv.png'']"
    by (simp_all add: paddedTextFile_def pngFile_def)
  ultimately
  have 2: "\<exists>rs w'. processMultipleFiles ocrEnv [paddedTextFile, pngFile] world0 = (Inr rs, w')
         \<and> length rs = 2 \<and> map res_fileName rs = [js ''cv.txt'', js ''cv.png'']"
    by (simp only:)
  from 1 2 show ?thesis ..
qed

text \<open>
  C7. A batch of \<open>N\<close> files that all pass validation is to give \<open>N\<close> results,
  whichever files fail. The code misses one failure: \<open>file.arrayBuffer()\<close> is
  awaited before the \<open>try\<close> of \<open>extractTextFromFile\<close>, so a file that cannot be
  read makes \<open>extractTextFromFile\<close>, and with it the whole batch, throw. Here a
  batch of two valid files, the first of them unreadable, passes the validation of
  the batch, and the call throws the error of the read: no result is returned, not
  even for the second file.
\<close>

theorem processMultipleFiles_unreadable_file:
  "batch_success (validateMultipleFiles [unreadableFile, paddedTextFile])
   \<and> processMultipleFiles failingEnv [unreadableFile, paddedTextFile] world0 =
       (Inl (js ''The requested file could not be read''), world0)"
proof -
  have v: "batch_success (validateMultipleFiles [unreadableFile, paddedTextFile])"
    by (simp add: batch_success_iff valid_examples MAX_FILES_def)
  have "extractTextFromFile failingEnv unreadableFile world0 =
      (Inl (js ''The requested file could not be read''), world0)"
    by (rule extractTextFromFile_unreadable [OF valid_examples(3)]) (simp add: unreadableFile_def)
  with v show ?thesis
    by (simp add: processMultipleFiles_def validFiles_all)
qed

section \<open>The remote inference client\<close>

lemma retryLoop_success:
  "attempt < maxRetries \<Longrightarrow> attemptOnce en payload attempt = Inr v \<Longrightarrow>
     retryLoop en payload maxRetries attempt delay calls = (Inr v, calls @ [Fetch])"
  by (simp add: retryLoop.simps [of en payload maxRetries attempt])

lemma retryLoop_last_failure:
  "attempt < maxRetries \<Longrightarrow> attemptOnce en payload attempt = Inl err \<Longrightarrow>
   maxRetries \<le> attempt + 1 \<Longrightarrow>
     retryLoop en payload maxRetries attempt delay calls = (Inl err, calls @ [Fetch])"
  by (simp add: retryLoop.simps [of en payload maxRetries attempt])

lemma retryLoop_retry:
  "attemptOnce en payload attempt = Inl err \<Longrightarrow> attempt + 1 < maxRetries \<Longrightarrow>
     retryLoop en payload maxRetries attempt delay calls =
       retryLoop en payload maxRetries (attempt + 1) (delay * 2)
         (calls @ [Fetch, SetTimeout delay])"
  by (simp add: retryLoop.simps [of en payload maxRetries attempt])

lemma attemptOnce_parsed:
  assumes "attemptOnce en payload k = Inr v"
  shows "\<exists>response result text.
           fetch en payload k = Inr response \<and> ok response \<and> json response = Inr result
           \<and> textOf result = Inr text \<and> \<not> isFalsy text \<and> JSON_parse en text = Inr v"
  using assms
  by (auto simp: attemptOnce_def split: sum.splits if_splits)

lemma three_attempts_with_key:
  assumes "apiKey en = Some key" and "key \<noteq> []"
  shows "callGeminiAPI en payload 3 =
     (case attemptOnce en payload 0 of
        Inr v \<Rightarrow> (Inr v, [Fetch])
      | Inl e0 \<Rightarrow>
          (case attemptOnce en payload 1 of
             Inr v \<Rightarrow> (Inr v, [Fetch, SetTimeout 1000, Fetch])
           | Inl e1 \<Rightarrow>
               (case attemptOnce en payload 2 of
                  Inr v \<Rightarrow> (Inr v, [Fetch, SetTimeout 1000, Fetch, SetTimeout 2000, Fetch])
                | Inl e2 \<Rightarrow>
                    (Inl e2, [Fetch, SetTimeout 1000, Fetch, SetTimeout 2000, Fetch]))))
   \<and> (\<forall>k v. attemptOnce en payload k = Inr v \<longrightarrow>
         (\<exists>response result text.
            fetch en payload k = Inr response \<and> ok response \<and> json response = Inr result
            \<and> textOf result = Inr text \<and> \<not> isFalsy text \<and> JSON_parse en text = Inr v))"
proof
  have start: "callGeminiAPI en payload 3 = retryLoop en payload 3 0 1000 []"
    using assms by (simp add: callGeminiAPI_def)
  show "callGeminiAPI en payload 3 =
     (case attemptOnce en payload 0 of
        Inr v \<Rightarrow> (Inr v, [Fetch])
      | Inl e0 \<Rightarrow>
          (case attemptOnce en payload 1 of
             Inr v \<Rightarrow> (Inr v, [Fetch, SetTimeout 1000, Fetch])
           | Inl e1 \<Rightarrow>
               (case attemptOnce en payload 2 of
                  Inr v \<Rightarrow> (Inr v, [Fetch, SetTimeout 1000, Fetch, SetTimeout 2000, Fetch])
                | Inl e2 \<Rightarrow>
                    (Inl e2, [Fetch, SetTimeout 1000, Fetch, SetTimeout 2000, Fetch]))))"
  proof (cases "attemptOnce en payload 0")
    case (Inr v)
    then show ?thesis
      by (simp add: start retryLoop_success)
  next
    case e0: (Inl e0)
    have one: "retryLoop en payload 3 0 1000 [] =
        retryLoop en payload 3 (0 + 1) (1000 * 2) ([] @ [Fetch, SetTimeout 1000])"
      using e0 by (rule retryLoop_retry) simp
    show ?thesis
    proof (cases "attemptOnce en payload 1")
      case (Inr v)
      have "retryLoop en payload 3 (0 + 1) (1000 * 2) ([] @ [Fetch, SetTimeout 1000]) =
          (Inr v, ([] @ [Fetch, SetTimeout 1000]) @ [Fetch])"
        by (rule retryLoop_success) (insert Inr, simp_all)
      then show ?thesis
        unfolding start one using e0 Inr by simp
    next
      case e1: (Inl e1)
      have two: "retryLoop en payload 3 (0 + 1) (1000 * 2) ([] @ [Fetch, SetTimeout 1000]) =
          retryLoop en payload 3 (0 + 1 + 1) (1000 * 2 * 2)
            (([] @ [Fetch, SetTimeout 1000]) @ [Fetch, SetTimeout (1000 * 2)])"
        by (rule retryLoop_retry [where err = e1]) (insert e1, simp_all)
      have n: "(0::nat) + 1 + 1 = 2"
        by simp
      show ?thesis
      proof (cases "attemptOnce en payload 2")
        case (Inr v)
        have "retryLoop en payload 3 (0 + 1 + 1) (1000 * 2 * 2)
            (([] @ [Fetch, SetTimeout 1000]) @ [Fetch, SetTimeout (1000 * 2)]) =
          (Inr v, (([] @ [Fetch, SetTimeout 1000]) @ [Fetch, SetTimeout (1000 * 2)]) @ [Fetch])"
          by (rule retryLoop_success) (insert Inr, simp_all add: numeral_2_eq_2)
        then show ?thesis
          unfolding start one two using e0 e1 Inr by simp
      next
        case (Inl e2)
        have "retryLoop en payload 3 (0 + 1 + 1) (1000 * 2 * 2)
            (([] @ [Fetch, SetTimeout 1000]) @ [Fetch, SetTimeout (1000 * 2)]) =
          (Inl e2, (([] @ [Fetch, SetTimeout 1000]) @ [Fetch, SetTimeout (1000 * 2)]) @ [Fetch])"
          by (rule retryLoop_last_failure) (insert Inl, simp_all add: numeral_2_eq_2)
        then show ?thesis
          unfolding start one two using e0 e1 Inl by simp
      qed
    qed
  qed
next
  show "\<forall>k v. attemptOnce en payload k = Inr v \<longrightarrow>
         (\<exists>response result text.
            fetch en payload k = Inr response \<and> ok response \<and> json response = Inr result
            \<and> textOf result = Inr text \<and> \<not> isFalsy text \<and> JSON_parse en text = Inr v)"
    by (intro allI impI) (rule attemptOnce_parsed)
qed


text \<open>
  C6. With the default \<open>maxRetries = 3\<close>, \<open>callGeminiAPI\<close> makes at most
  three requests (none when the API key is not configured, which is an error before
  any request); it waits 1000 ms before the second and 2000 ms before the third;
  the first attempt that succeeds ends the call with the value \<open>JSON.parse\<close> gave
  for the text of its response; when all three fail the error of the third is
  thrown.
\<close>

theorem callGeminiAPI_three_attempts:
  "(apiKey en = None \<or> apiKey en = Some [] \<longrightarrow>
      callGeminiAPI en payload 3 =
        (Inl (js (''Gemini API key not configured. '' @
                  ''Please add VITE_GEMINI_API_KEY to your .env file.'')), []))
   \<and> (apiKey en = Some key \<and> key \<noteq> [] \<longrightarrow>
        callGeminiAPI en payload 3 =
          (case attemptOnce en payload 0 of
             Inr v \<Rightarrow> (Inr v, [Fetch])
           | Inl e0 \<Rightarrow>
               (case attemptOnce en payload 1 of
                  Inr v \<Rightarrow> (Inr v, [Fetch, SetTimeout 1000, Fetch])
                | Inl e1 \<Rightarrow>
                    (case attemptOnce en payload 2 of
                       Inr v \<Rightarrow>
                         (Inr v, [Fetch, SetTimeout 1000, Fetch, SetTimeout 2000, Fetch])
                     | Inl e2 \<Rightarrow>
                         (Inl e2, [Fetch, SetTimeout 1000, Fetch, SetTimeout 2000, Fetch])))))
   \<and> (\<forall>k v. attemptOnce en payload k = Inr v \<longrightarrow>
         (\<exists>response result text.
            fetch en payload k = Inr response \<and> ok response \<and> json response = Inr result
            \<and> textOf result = Inr text \<and> \<not> isFalsy text \<and> JSON_parse en text = Inr v))"
proof (intro conjI impI)
  assume "apiKey en = None \<or> apiKey en = Some []"
  then show "callGeminiAPI en payload 3 =
        (Inl (js (''Gemini API key not configured. '' @
                  ''Please add VITE_GEMINI_API_KEY to your .env file.'')), [])"
    by (auto simp: callGeminiAPI_def)
next
  assume "apiKey en = Some key \<and> key \<noteq> []"
  then have "apiKey en = Some key" "key \<noteq> []"
    by simp_all
  from three_attempts_with_key [OF this, of payload]
  show "callGeminiAPI en payload 3 =
          (case attemptOnce en payload 0 of
             Inr v \<Rightarrow> (Inr v, [Fetch])
           | Inl e0 \<Rightarrow>
               (case attemptOnce en payload 1 of
                  Inr v \<Rightarrow> (Inr v, [Fetch, SetTimeout 1000, Fetch])
                | Inl e1 \<Rightarrow>
                    (case attemptOnce en payload 2 of
                       Inr v \<Rightarrow>
                         (Inr v, [Fetch, SetTimeout 1000, Fetch, SetTimeout 2000, Fetch])
                     | Inl e2 \<Rightarrow>
                         (Inl e2, [Fetch, SetTimeout 1000, Fetch, SetTimeout 2000, Fetch]))))"
    by (rule conjunct1)
next
  show "\<forall>k v. attemptOnce en payload k = Inr v \<longrightarrow>
         (\<exists>response result text.
            fetch en payload k = Inr response \<and> ok response \<and> json response = Inr result
            \<and> textOf result = Inr text \<and> \<not> isFalsy text \<and> JSON_parse en text = Inr v)"
    by (intro allI impI) (rule attemptOnce_parsed)
qed

lemma textOf_goodResponse: "textOf (JObj [(js ''candidates'',
              JArr [JObj [(js ''content'',
                     JObj [(js ''parts'', JArr [JObj [(js ''text'', JStr scoreText)]]),
                           (js ''role'', JStr (js ''model''))])]])]) = Inr (JStr scoreText)"
  by (simp add: textOf_def optChain_def Let_def js_inject)

lemma scoreText_not_empty: "scoreText \<noteq> []"
  by (simp add: scoreText_def)

lemma attemptOnce_good:
  "fetch en payload k = Inr goodResponse \<Longrightarrow> JSON_parse en = parseScore \<Longrightarrow>
     attemptOnce en payload k = Inr (JObj [(js ''score'', JNum 80)])"
  by (simp add: attemptOnce_def goodResponse_def textOf_goodResponse scoreText_not_empty
      parseScore_def)

theorem callGeminiAPI_three_attempts_witness:
  "callGeminiAPI flakyEnv () 3 =
     (Inr (JObj [(js ''score'', JNum 80)]),
      [Fetch, SetTimeout 1000, Fetch, SetTimeout 2000, Fetch])"
proof -
  have k: "apiKey flakyEnv = Some (js ''test-key'')" "js ''test-key'' \<noteq> []"
    by (simp_all add: flakyEnv_def)
  have a0: "attemptOnce flakyEnv () 0 = Inl (js ''Failed to fetch'')"
    and a1: "attemptOnce flakyEnv () 1 = Inl (js ''Failed to fetch'')"
    by (simp_all add: attemptOnce_def flakyEnv_def)
  have a2: "attemptOnce flakyEnv () 2 = Inr (JObj [(js ''score'', JNum 80)])"
    by (rule attemptOnce_good) (simp_all add: flakyEnv_def)
  from callGeminiAPI_three_attempts [of flakyEnv "()" "js ''test-key''"] k
  have "callGeminiAPI flakyEnv () 3 =
     (case attemptOnce flakyEnv () 0 of
        Inr v \<Rightarrow> (Inr v, [Fetch])
      | Inl e0 \<Rightarrow>
          (case attemptOnce flakyEnv () 1 of
             Inr v \<Rightarrow> (Inr v, [Fetch, SetTimeout 1000, Fetch])
           | Inl e1 \<Rightarrow>
               (case attemptOnce flakyEnv () 2 of
                  Inr v \<Rightarrow> (Inr v, [Fetch, SetTimeout 1000, Fetch, SetTimeout 2000, Fetch])
                | Inl e2 \<Rightarrow>
                    (Inl e2, [Fetch, SetTimeout 1000, Fetch, SetTimeout 2000, Fetch]))))"
    by blast
  then show ?thesis
    unfolding a0 a1 a2 by simp
qed


text \<open>
  C5 (amended). A response that lacks the nested text makes the attempt fail with
  the error \<open>Invalid response structure from API.\<close>, and the failure is handled
  as every other: when it was the last allowed attempt the error is thrown, and
  otherwise the client waits the current delay, doubles it and tries again.
\<close>

theorem missing_text_is_retried:
  assumes "fetch en payload attempt = Inr response" and "ok response"
    and "json response = Inr result" and "textOf result = Inr text" and "isFalsy text"
    and "attempt < maxRetries"
  shows "attemptOnce en payload attempt = Inl (js ''Invalid response structure from API.'')
     \<and> retryLoop en payload maxRetries attempt delay calls =
         (if maxRetries \<le> attempt + 1 then
            (Inl (js ''Invalid response structure from API.''), calls @ [Fetch])
          else retryLoop en payload maxRetries (attempt + 1) (delay * 2)
                 (calls @ [Fetch, SetTimeout delay]))"
proof -
  have a: "attemptOnce en payload attempt = Inl (js ''Invalid response structure from API.'')"
    using assms by (simp add: attemptOnce_def)
  show ?thesis
  proof (cases "maxRetries \<le> attempt + 1")
    case True
    with a assms(6) show ?thesis
      by (simp add: retryLoop_last_failure)
  next
    case False
    then have "attempt + 1 < maxRetries"
      by simp
    with a False show ?thesis
      by (simp add: retryLoop_retry)
  qed
qed

lemma textOf_blockedBody: "textOf blockedBody = Inr JUndefined"
  by (simp add: textOf_def blockedBody_def optChain_def js_inject)

text \<open>
  The claim as stated fails: when the first response lacks the text and the second
  has it, the call waits 1000 ms, makes a second request and returns its value.
\<close>

theorem missing_text_is_retried_counterexample:
  "fetch blockedOnceEnv () 0 = Inr blockedResponse \<and> ok blockedResponse
   \<and> json blockedResponse = Inr blockedBody \<and> textOf blockedBody = Inr JUndefined
   \<and> isFalsy JUndefined
   \<and> callGeminiAPI blockedOnceEnv () 3 =
       (Inr (JObj [(js ''score'', JNum 80)]), [Fetch, SetTimeout 1000, Fetch])"
proof -
  have a0: "attemptOnce blockedOnceEnv () 0 = Inl (js ''Invalid response structure from API.'')"
    by (simp add: attemptOnce_def blockedOnceEnv_def blockedResponse_def textOf_blockedBody)
  have a1: "attemptOnce blockedOnceEnv () (0 + 1) = Inr (JObj [(js ''score'', JNum 80)])"
    by (rule attemptOnce_good) (simp_all add: blockedOnceEnv_def)
  have "callGeminiAPI blockedOnceEnv () 3 = retryLoop blockedOnceEnv () 3 0 1000 []"
    by (simp add: callGeminiAPI_def blockedOnceEnv_def)
  also have "\<dots> = retryLoop blockedOnceEnv () 3 (0 + 1) (1000 * 2) ([] @ [Fetch, SetTimeout 1000])"
    using a0 by (rule retryLoop_retry) simp
  also have "\<dots> = (Inr (JObj [(js ''score'', JNum 80)]), ([] @ [Fetch, SetTimeout 1000]) @ [Fetch])"
    using _ a1 by (rule retryLoop_success) simp
  finally show ?thesis
    by (simp add: blockedOnceEnv_def blockedResponse_def textOf_blockedBody)
qed

theorem missing_text_is_retried_witness:
  "callGeminiAPI blockedOnceEnv () 1 =
     (Inl (js ''Invalid response structure from API.''), [Fetch])
   \<and> retryLoop blockedOnceEnv () 3 0 1000 [] =
       retryLoop blockedOnceEnv () 3 1 2000 [Fetch, SetTimeout 1000]"
proof -
  have f: "fetch blockedOnceEnv () 0 = Inr blockedResponse" "ok blockedResponse"
    "json blockedResponse = Inr blockedBody" "isFalsy JUndefined"
    by (simp_all add: blockedOnceEnv_def blockedResponse_def)
  have c: "callGeminiAPI blockedOnceEnv () 1 = retryLoop blockedOnceEnv () 1 0 1000 []"
    by (simp add: callGeminiAPI_def blockedOnceEnv_def)
  from missing_text_is_retried [OF f(1,2,3) textOf_blockedBody f(4), of 1 1000 "[]"]
  have 1: "retryLoop blockedOnceEnv () 1 0 1000 [] =
      (Inl (js ''Invalid response structure from API.''), [Fetch])"
    by simp
  from missing_text_is_retried [OF f(1,2,3) textOf_blockedBody f(4), of 3 1000 "[]"]
  have 2: "retryLoop blockedOnceEnv () 3 0 1000 [] =
       retryLoop blockedOnceEnv () 3 1 2000 [Fetch, SetTimeout 1000]"
    by simp
  from 1 2 show ?thesis
    unfolding c by simp
qed

end
